theory Spec2Isabelle
  imports Main
begin

section \<open>JavaScript strings and the built-ins the handlers call\<close>

text \<open>
  A JavaScript string is a sequence of UTF-16 code units. It is modelled as a \<^typ>\<open>string\<close>,
  each \<^typ>\<open>char\<close> standing for the code unit of the same number, so the model covers the
  texts whose code units are below 256 (ASCII and Latin-1). \<open>length\<close> is \<open>.length\<close>.
\<close>

definition isWordChar :: "char \<Rightarrow> bool" where
  \<comment> \<open>the regular-expression class \<open>\w\<close>, that is \<open>[A-Za-z0-9_]\<close>; \<open>\W\<close> is its complement\<close>
  "isWordChar c = (let n = (of_char c :: nat) in
     (48 \<le> n \<and> n \<le> 57) \<or> (65 \<le> n \<and> n \<le> 90) \<or> n = 95 \<or> (97 \<le> n \<and> n \<le> 122))"

definition isWhiteSpace :: "char \<Rightarrow> bool" where
  \<comment> \<open>what \<open>trim()\<close> strips: TAB, LF, VT, FF, CR, space and the no-break space\<close>
  "isWhiteSpace c = (let n = (of_char c :: nat) in (9 \<le> n \<and> n \<le> 13) \<or> n = 32 \<or> n = 160)"

definition lowerChar :: "char \<Rightarrow> char" where
  \<comment> \<open>\<open>A-Z\<close> and the Latin-1 capitals (all of 0xC0..0xDE but the multiplication sign)\<close>
  "lowerChar c = (let n = (of_char c :: nat) in
     if (65 \<le> n \<and> n \<le> 90) \<or> (192 \<le> n \<and> n \<le> 222 \<and> n \<noteq> 215) then char_of (n + 32) else c)"

definition toLowerCase :: "string \<Rightarrow> string" where
  "toLowerCase s = map lowerChar s"

definition trim :: "string \<Rightarrow> string" where
  "trim s = rev (dropWhile isWhiteSpace (rev (dropWhile isWhiteSpace s)))"

fun startsWith :: "string \<Rightarrow> string \<Rightarrow> bool" where
  "startsWith s [] = True"
| "startsWith [] (p # ps) = False"
| "startsWith (c # cs) (p # ps) = (c = p \<and> startsWith cs ps)"

fun includes_js :: "string \<Rightarrow> string \<Rightarrow> bool" where
  \<comment> \<open>\<open>s.includes(p)\<close>: \<open>p\<close> occurs in \<open>s\<close> as a contiguous substring\<close>
  "includes_js [] p = (p = [])"
| "includes_js (c # cs) p = (startsWith (c # cs) p \<or> includes_js cs p)"

function replace_g :: "string \<Rightarrow> string \<Rightarrow> string \<Rightarrow> string" where
  \<comment> \<open>\<open>s.replace(/p/g, r)\<close> for a non-empty literal pattern \<open>p\<close>: the occurrences are found
      from left to right, and the scan resumes after each one\<close>
  "replace_g [] p r = []"
| "replace_g (c # cs) p r =
     (if p \<noteq> [] \<and> startsWith (c # cs) p
      then r @ replace_g (drop (length p) (c # cs)) p r
      else c # replace_g cs p r)"
  by pat_completeness auto
termination
  by (relation "measure (\<lambda>(s, p, r). length s)") (auto simp: neq_Nil_conv)

section \<open>The speech-text sanitizer (the cleaning variant of the speech handler)\<close>

definition backslash_n :: string where
  \<comment> \<open>the two characters matched by \<open>/\\n/\<close>: a backslash and the letter n\<close>
  "backslash_n = [CHR 0x5C, CHR ''n'']"

definition sanitize :: "string \<Rightarrow> string" where
  \<open>sanitize text =
     trim
      (replace_g
        (replace_g
          (replace_g
            (replace_g
              (replace_g
                (replace_g
                  (replace_g text ''```json'' '''')
                  ''```'' '''')
                ''{'' '''')
              ''}'' '''')
            ''"answer":'' '''')
          ''Confidence: low'' '''')
        backslash_n '' '')\<close>

definition patterns :: "string list" where
  \<comment> \<open>the seven literals the sanitizer looks for, in the order of its replace calls\<close>
  \<open>patterns = [''```json'', ''```'', ''{'', ''}'', ''"answer":'', ''Confidence: low'', backslash_n]\<close>

definition has_pattern :: "string \<Rightarrow> bool" where
  "has_pattern s = list_ex (includes_js s) patterns"

section \<open>Knowledge snippets\<close>

text \<open>
  A knowledge snippet is an object \<open>{ id, text }\<close>. The knowledge base is the array that
  \<open>loadKB\<close> returns: the parsed \<open>kb_vectors.json\<close>, or the inline array when the file
  cannot be read. The model takes a well-formed knowledge base, an array of objects whose
  \<open>id\<close> and \<open>text\<close> are strings; on anything else the handlers throw and answer 500.
\<close>

record snippet =
  id_s :: string
  text_s :: string

definition KB_fallback :: "snippet list" where
  \<comment> \<open>the inline array of \<open>api/chat.js\<close>\<close>
  "KB_fallback =
    [\<lparr>id_s = ''KB_LIFE'', text_s = ''I am a fourth-year engineering student from Bengaluru who blends design and code.''\<rparr>,
     \<lparr>id_s = ''KB_SUPERPOWER'', text_s = ''Superpower: creative problem-solving; combines design thinking with code to ship prototypes fast.''\<rparr>,
     \<lparr>id_s = ''KB_GROW'', text_s = ''Wants to grow in backend systems & deployments, advanced ML/LLM tooling and RAG, and system design.''\<rparr>,
     \<lparr>id_s = ''KB_SKILLS'', text_s = ''Skills: HTML, CSS, JavaScript, React, Node.js; Figma and UI/UX design interest.''\<rparr>,
     \<lparr>id_s = ''KB_TRAITS'', text_s = ''I am creative, a fast learner, and enjoy working in groups.''\<rparr>,
     \<lparr>id_s = ''KB_AI'', text_s = ''I have been dabbling in AI/ML because it is interesting and opens new ways to build helpful tools.''\<rparr>]"

definition KB_fallback_v2 :: "snippet list" where
  \<comment> \<open>the inline array of the second Gemini handler (the one whose \<open>buildContext\<close> takes \<open>maxChunks\<close>)\<close>
  "KB_fallback_v2 =
    [\<lparr>id_s = ''KB_LIFE'', text_s = ''I am Nitya, a fourth-year engineering student from Bengaluru with a creative mindset; I build frontends and explore AI/ML.''\<rparr>,
     \<lparr>id_s = ''KB_EDU'', text_s = ''Education: B.E. in Computer Science; coursework includes data structures, networks, and fundamentals of machine learning.''\<rparr>,
     \<lparr>id_s = ''KB_SKILLS'', text_s = ''Skills: HTML, CSS, JavaScript, React, Node.js, Tailwind, Figma, GSAP, Electron, and beginner Python for ML.''\<rparr>,
     \<lparr>id_s = ''KB_ARCHITECTURE'', text_s = ''Architecture: React + Vite frontend, Vercel serverless backend, Gemini Pro for intelligence, in-memory RAG over the Nitya KB, and ElevenLabs for voice output.''\<rparr>,
     \<lparr>id_s = ''KB_PROJECT_OVABLOOM'', text_s = ''OvaBloom: frontend contributor. A PCOS companion app with explainable ML risk assessment, privacy-first local storage, and lifestyle tips.''\<rparr>,
     \<lparr>id_s = ''KB_PROJECT_RAINSAFE'', text_s = ''RainSafe: hyperlocal flood alert prototype using environmental data and ML risk scoring; integrates map APIs and sends alerts to at-risk users.''\<rparr>,
     \<lparr>id_s = ''KB_PROJECT_GAME'', text_s = ''Magical ball game: Toy Story-inspired exploration + stealth mechanics where different sports balls have unique behaviours and hiding spots.''\<rparr>,
     \<lparr>id_s = ''KB_PROJECT_VOICENARY'', text_s = ''Voicenary: AI Voice Chat Application connecting to external AI services (Bolt-AI, ElevenLabs) via REST APIs; frontend built with React and Tailwind and deployed on Netlify.''\<rparr>,
     \<lparr>id_s = ''KB_STYLE'', text_s = ''Voice style: casual, friendly, concise, honest. I prefer shipping imperfect versions quickly and iterating on feedback.''\<rparr>,
     \<lparr>id_s = ''KB_SUPERPOWER'', text_s = ''Superpower: creative problem solving combining UI/UX thinking with engineering to quickly prototype useful products.''\<rparr>,
     \<lparr>id_s = ''KB_GROW'', text_s = ''Growth areas: backend systems and scalable deployments, advanced ML/LLM tooling and RAG pipelines, and system design for production apps.''\<rparr>,
     \<lparr>id_s = ''KB_WORK_PREF'', text_s = ''Work preference: short collaborative sessions and early mockups for feedback rather than long solitary focus stints.''\<rparr>,
     \<lparr>id_s = ''KB_PERSONAL'', text_s = ''Interests: UI/UX design, full-stack development, small creative projects, crocheting, and making aesthetic social content.''\<rparr>,
     \<lparr>id_s = ''KB_PERSONAL2'', text_s = ''Personality: creative, fast learner, always curious about AI and new tech; enjoys multiple hobbies outside of work.''\<rparr>,
     \<lparr>id_s = ''KB_PUSH'', text_s = ''I push my boundaries by shipping imperfect versions quickly, time-boxing experiments, asking for feedback early, and iterating fast to learn.''\<rparr>,
     \<lparr>id_s = ''KB_MISCONCEPTION'', text_s = ''Misconception: people think I prefer working alone because I focus deeply, but I do my best work in short collaborative sessions with quick feedback.''\<rparr>,
     \<lparr>id_s = ''KB_TOOLING'', text_s = ''Tooling: comfortable with React, Tailwind, Electron; learning Node.js backend and experimenting with embeddings and RAG.''\<rparr>,
     \<lparr>id_s = ''KB_RESUME_BULLET'', text_s = ''Resume bullet: Built a voice-first interview demo (React + Web Speech API) with retrieval-augmented HF LLM and guardrails for truthful answers.''\<rparr>,
     \<lparr>id_s = ''KB_AVAIL'', text_s = ''Availability: full-time student but can commit to project-based freelance or remote work; open to internships abroad.''\<rparr>,
     \<lparr>id_s = ''KB_FAQ'', text_s = ''FAQ: If asked about my superpower I say creative problem solving; if asked about growth I mention backend, LLMs, and system design.''\<rparr>,
     \<lparr>id_s = ''KB_FAV_COLOR'', text_s = ''Favorite color: pastel lavender and soft sage.''\<rparr>,
     \<lparr>id_s = ''KB_FAV_FOOD'', text_s = ''Favorite food: masala dosa with coconut chutney; also loves dark chocolate as a snack.''\<rparr>,
     \<lparr>id_s = ''KB_PERSONALITY'', text_s = ''Personality type: collaborative, optimistic, ENFP-leaning; ships fast, iterates, and learns by doing.''\<rparr>,
     \<lparr>id_s = ''KB_VALUES'', text_s = ''Values: honesty, quick feedback loops, and building useful things that help people.''\<rparr>,
     \<lparr>id_s = ''KB_COMM'', text_s = ''Communication: prefers concise, friendly, first-person responses and short calls or Looms over long threads.''\<rparr>,
     \<lparr>id_s = ''KB_TIME'', text_s = ''Location/timezone: Bengaluru (IST); can adjust for remote collaboration with prior notice.''\<rparr>,
     \<lparr>id_s = ''KB_WEAKNESS'', text_s = ''Current focus areas: strengthening backend depth and system design; avoids overcommitting by time-boxing work.''\<rparr>]"

section \<open>Objects and their identity\<close>

text \<open>
  \<open>new Set\<close> compares objects by identity, so the model gives every object an address.
  The element at index \<open>i\<close> of the knowledge-base array is the object \<open>Loaded i\<close>; the object
  that the spread literal \<open>{ ...item, score }\<close> allocates for that element is \<open>Spread i\<close>,
  a new object with the same \<open>id\<close> and \<open>text\<close>. The \<open>score\<close> property exists on the copies only.
\<close>

datatype addr = Loaded nat | Spread nat

record item =
  ref :: addr
  id_of :: string
  text_of :: string
  score :: "nat option"

definition kb_items :: "snippet list \<Rightarrow> item list" where
  "kb_items kb =
     map (\<lambda>(i, s). \<lparr>ref = Loaded i, id_of = id_s s, text_of = text_s s, score = None\<rparr>)
         (enumerate 0 kb)"

text \<open>
  A JavaScript \<open>Set\<close> keeps its elements in the order they were first added. \<open>key\<close> is
  what the set compares: the value itself for strings, the address for objects.
\<close>

definition Set_add :: "('a \<Rightarrow> 'k) \<Rightarrow> 'a list \<Rightarrow> 'a \<Rightarrow> 'a list" where
  "Set_add key s x = (if key x \<in> set (map key s) then s else s @ [x])"

definition new_Set :: "('a \<Rightarrow> 'k) \<Rightarrow> 'a list \<Rightarrow> 'a list" where
  "new_Set key xs = foldl (Set_add key) [] xs"

section \<open>The context selector\<close>

function split_nonword :: "string \<Rightarrow> string list" where
  \<comment> \<open>\<open>s.split(/\W+/)\<close>: the pieces between the runs of non-word characters, the empty
      pieces before a leading run and after a trailing run included\<close>
  "split_nonword s =
     (let w = takeWhile isWordChar s; r = dropWhile isWordChar s
      in if r = [] then [w] else w # split_nonword (dropWhile (\<lambda>c. \<not> isWordChar c) r))"
  by pat_completeness auto
termination
proof (relation "measure length")
  show "wf (measure length)" by simp
next
  fix s :: string and x xa
  assume x: "x = takeWhile isWordChar s" and xa: "xa = dropWhile isWordChar s" and ne: "xa \<noteq> []"
  from ne xa have "\<not> isWordChar (hd xa)" by (metis hd_dropWhile)
  with ne have "length (dropWhile (\<lambda>c. \<not> isWordChar c) xa) < length xa"
    by (cases xa) (auto simp: le_imp_less_Suc length_dropWhile_le)
  moreover have "length xa \<le> length s" by (simp add: xa length_dropWhile_le)
  ultimately show "(dropWhile (\<lambda>c. \<not> isWordChar c) xa, s) \<in> measure length" by simp
qed

declare split_nonword.simps [simp del]

definition tokens :: "string \<Rightarrow> string list" where
  \<comment> \<open>\<open>Array.from(new Set(q.split(/\W+/).filter(Boolean)))\<close> with \<open>q\<close> the lowercased query\<close>
  "tokens query = new_Set (\<lambda>t. t) (filter (\<lambda>t. t \<noteq> []) (split_nonword (toLowerCase query)))"

definition matches :: "item \<Rightarrow> string \<Rightarrow> bool" where
  \<comment> \<open>the test both variants apply to a snippet and a token: \<open>tok.length > 2 && t.includes(tok)\<close>\<close>
  "matches k tok = (length tok > 2 \<and> includes_js (toLowerCase (text_of k)) tok)"

definition join :: "string \<Rightarrow> string list \<Rightarrow> string" where
  "join sep xs = (case xs of [] \<Rightarrow> [] | x # rest \<Rightarrow> x @ concat (map (\<lambda>y. sep @ y) rest))"

definition render :: "item \<Rightarrow> string" where
  \<comment> \<open>the template \<open>[${k.id}] ${k.text}\<close>\<close>
  "render k = ''['' @ id_of k @ ''] '' @ text_of k"

definition filter_Boolean :: "'a option list \<Rightarrow> 'a list" where
  \<comment> \<open>\<open>.filter(Boolean)\<close> on an array of objects and \<open>undefined\<close>\<close>
  "filter_Boolean xs = concat (map (\<lambda>x. case x of None \<Rightarrow> [] | Some y \<Rightarrow> [y]) xs)"

record context_result =
  context_block :: string
  source_ids :: "string list"

subsection \<open>\<open>buildContext\<close> of \<open>api/chat.js\<close>\<close>

definition hits :: "string list \<Rightarrow> item list \<Rightarrow> item list" where
  \<comment> \<open>the outer loop: an item joins the set at its first matching token\<close>
  "hits toks items =
     foldl (\<lambda>s k. if list_ex (matches k) toks then Set_add ref s k else s) [] items"

definition anchors :: "item list \<Rightarrow> item list" where
  "anchors items =
     filter_Boolean [find (\<lambda>k. id_of k = ''KB_LIFE'') items,
                     find (\<lambda>k. id_of k = ''KB_SUPERPOWER'') items]"

definition buildContext :: "string \<Rightarrow> snippet list \<Rightarrow> context_result" where
  "buildContext query kb =
     (let items = kb_items kb;
          toks = tokens query;
          selected = new_Set ref (anchors items @ hits toks items)
      in \<lparr>context_block = join [CHR 0x0A, CHR 0x0A] (map render selected),
          source_ids = map id_of selected\<rparr>)"

subsection \<open>\<open>buildContext\<close> with \<open>maxChunks\<close> (second Gemini handler)\<close>

definition score_of :: "string list \<Rightarrow> item \<Rightarrow> nat" where
  \<comment> \<open>the inner loop: one point for each token that matches\<close>
  "score_of toks k = length (filter (matches k) toks)"

definition scored :: "string list \<Rightarrow> item list \<Rightarrow> item list" where
  \<comment> \<open>\<open>kb.map(item => ({ ...item, score })).filter(s => s.score > 0)\<close>, then the
      descending sort; \<open>Array.prototype.sort\<close> is stable, and so is \<open>sort_key\<close>\<close>
  "scored toks items =
     sort_key (\<lambda>s. - int (case score s of None \<Rightarrow> 0 | Some n \<Rightarrow> n))
       (filter (\<lambda>s. case score s of None \<Rightarrow> False | Some n \<Rightarrow> n > 0)
         (map (\<lambda>(i, k). k\<lparr>ref := Spread i, score := Some (score_of toks k)\<rparr>) (enumerate 0 items)))"

definition anchors_v2 :: "item list \<Rightarrow> item list" where
  "anchors_v2 items =
     filter (\<lambda>k. id_of k \<in> set [''KB_LIFE'', ''KB_SUPERPOWER'', ''KB_SKILLS'', ''KB_ARCHITECTURE'']) items"

definition buildContext_v2 :: "string \<Rightarrow> snippet list \<Rightarrow> nat \<Rightarrow> context_result" where
  "buildContext_v2 query kb maxChunks =
     (let items = kb_items kb;
          toks = tokens query;
          merged = new_Set ref (anchors_v2 items @ take maxChunks (scored toks items))
      in if merged = [] then \<lparr>context_block = [], source_ids = []\<rparr>
         else \<lparr>context_block = join [CHR 0x0A, CHR 0x0A] (map render merged),
               source_ids = map id_of merged\<rparr>)"

section \<open>JSON values\<close>

text \<open>
  A JSON number is a double. The handlers never compute with one: they test whether it is
  truthy (neither zero nor NaN) and they print it with \<open>String()\<close>. The model keeps these two
  observations and nothing else of the number.
\<close>

datatype number = Number (nonzero: bool) (shown: string)

datatype json =
    JNull
  | JBool bool
  | JNum number
  | JStr string
  | JArr "json list"
  | JObj "(string \<times> json) list"

type_synonym jobject = "(string \<times> json) list"

fun truthy :: "json \<Rightarrow> bool" where
  "truthy JNull = False"
| "truthy (JBool b) = b"
| "truthy (JNum n) = nonzero n"
| "truthy (JStr s) = (s \<noteq> [])"
| "truthy (JArr xs) = True"
| "truthy (JObj ps) = True"

datatype js_error = TypeError

text \<open>
  \<open>String(v)\<close> on a value that \<open>JSON.parse\<close> produced. An array prints its elements joined
  by commas, \<open>null\<close> as the empty string. A plain object prints as \<open>[object Object]\<close> through
  \<open>Object.prototype.toString\<close>, unless it has an own property named \<open>toString\<close>: that
  property shadows the method and is not callable, \<open>valueOf\<close> returns the object itself, and
  the conversion throws a \<open>TypeError\<close>.
\<close>

fun js_String :: "json \<Rightarrow> js_error + string"
  and js_Strings :: "json list \<Rightarrow> js_error + string list" where
  "js_String JNull = Inr ''null''"
| "js_String (JBool b) = Inr (if b then ''true'' else ''false'')"
| "js_String (JNum n) = Inr (shown n)"
| "js_String (JStr s) = Inr s"
| "js_String (JArr xs) = (case js_Strings xs of Inl e \<Rightarrow> Inl e | Inr ss \<Rightarrow> Inr (join '','' ss))"
| "js_String (JObj ps) =
     (if ''toString'' \<in> set (map fst ps) then Inl TypeError else Inr ''[object Object]'')"
| "js_Strings [] = Inr []"
| "js_Strings (x # xs) =
     (case (if x = JNull then Inr [] else js_String x) of
        Inl e \<Rightarrow> Inl e
      | Inr s \<Rightarrow> (case js_Strings xs of Inl e \<Rightarrow> Inl e | Inr ss \<Rightarrow> Inr (s # ss)))"

section \<open>The response envelope and the model response parser\<close>

record envelope =
  answer :: string
  confidence :: string
  sources :: "json list"

definition no_information :: string where
  "no_information = ''I don't have verified information in my sources.''"

definition match_braces :: "string \<Rightarrow> string option" where
  \<comment> \<open>\<open>generated.match(/\{[\s\S]*\}/)\<close>: from the first opening brace to the last closing
      brace after it\<close>
  "match_braces s =
     (let from_open = dropWhile (\<lambda>c. c \<noteq> CHR ''{'') s
      in if from_open = [] then None
         else (let inner = rev (dropWhile (\<lambda>c. c \<noteq> CHR ''}'') (rev (tl from_open)))
               in if inner = [] then None else Some (CHR ''{'' # inner)))"

definition answer_of :: "jobject \<Rightarrow> js_error + string" where
  \<comment> \<open>\<open>typeof parsed.answer === 'string' ? parsed.answer : String(parsed.answer || '')\<close>\<close>
  "answer_of parsed =
     (case map_of parsed ''answer'' of
        Some (JStr s) \<Rightarrow> Inr s
      | Some v \<Rightarrow> if truthy v then js_String v else Inr []
      | None \<Rightarrow> Inr [])"

definition sources_of :: "jobject \<Rightarrow> js_error + json list" where
  \<comment> \<open>\<open>Array.isArray(parsed.sources) ? parsed.sources
        : (parsed.sources ? [String(parsed.sources)] : [])\<close>\<close>
  "sources_of parsed =
     (case map_of parsed ''sources'' of
        Some (JArr xs) \<Rightarrow> Inr xs
      | Some v \<Rightarrow> if truthy v
                  then (case js_String v of Inl e \<Rightarrow> Inl e | Inr s \<Rightarrow> Inr [JStr s])
                  else Inr []
      | None \<Rightarrow> Inr [])"

definition levels :: "string list" where
  "levels = [''high'', ''medium'', ''low'']"

definition confidence_of :: "jobject \<Rightarrow> json list \<Rightarrow> string" where
  \<comment> \<open>\<open>sources.length ? (levels.includes(parsed.confidence) ? parsed.confidence : 'medium') : 'low'\<close>\<close>
  "confidence_of parsed srcs =
     (if length srcs \<noteq> 0
      then (case map_of parsed ''confidence'' of
              Some (JStr c) \<Rightarrow> if c \<in> set levels then c else ''medium''
            | _ \<Rightarrow> ''medium'')
      else ''low'')"

definition envelope_of :: "jobject \<Rightarrow> js_error + envelope" where
  \<comment> \<open>the body of the \<open>try\<close> block after \<open>JSON.parse\<close>\<close>
  "envelope_of parsed =
     (case answer_of parsed of
        Inl e \<Rightarrow> Inl e
      | Inr a \<Rightarrow>
          (case sources_of parsed of
             Inl e \<Rightarrow> Inl e
           | Inr given \<Rightarrow>
               (let srcs = (if length given = 0 then [] else given)
                in Inr \<lparr>answer = take 2000 a, confidence = confidence_of parsed srcs, sources = srcs\<rparr>)))"

definition fallback :: "string \<Rightarrow> envelope" where
  "fallback generated =
     (let fallbackText = take 2000 (trim generated)
      in \<lparr>answer = (if fallbackText = [] then no_information else fallbackText),
          confidence = ''low'', sources = []\<rparr>)"

text \<open>
  \<open>JSON.parse\<close> is a parameter: a function from the matched text to the object it denotes,
  \<open>None\<close> when it throws a \<open>SyntaxError\<close>. The matched text starts with an opening brace, so a
  successful parse is an object; it is given as the list of its properties, keys distinct.
  An exception inside the \<open>try\<close> block, from the parse or from \<open>String()\<close>, is caught
  and the handler goes on to the fallback.
\<close>

definition parse_generated :: "(string \<Rightarrow> jobject option) \<Rightarrow> string \<Rightarrow> envelope" where
  "parse_generated JSON_parse generated =
     (case match_braces generated of
        None \<Rightarrow> fallback generated
      | Some m \<Rightarrow>
          (case JSON_parse m of
             None \<Rightarrow> fallback generated
           | Some parsed \<Rightarrow>
               (case envelope_of parsed of
                  Inl e \<Rightarrow> fallback generated
                | Inr e \<Rightarrow> e)))"

section \<open>Requests, responses and the outside world\<close>

record request =
  req_method :: string
  text_field :: "json option"  \<comment> \<open>the \<open>text\<close> property of \<open>req.body || {}\<close>, \<open>None\<close> when undefined\<close>

datatype payload =
    Answer envelope  \<comment> \<open>\<open>{ answer, confidence, sources }\<close>\<close>
  | Error string "string option"  \<comment> \<open>\<open>{ error, details }\<close>, the details optional\<close>
  | Audio string  \<comment> \<open>the bytes of an \<open>audio/mpeg\<close> body\<close>

record response =
  status :: nat
  body :: payload

text \<open>
  What a handler does besides answering: it builds a context block, it calls the model
  client with a prompt, it calls the speech endpoint with a text. The handlers return the
  list of these steps with the response.
\<close>

datatype event = ContextBuilt | ModelCall string | SpeechCall string

record result =
  reply :: response
  calls :: "event list"

record env =
  HF_API_TOKEN :: "string option"
  HF_MODEL :: "string option"
  GEMINI_API_KEY :: "string option"
  ELEVENLABS_API_KEY :: "string option"

definition unset :: "string option \<Rightarrow> bool" where
  \<comment> \<open>\<open>!process.env.X\<close>: the variable is undefined or empty\<close>
  "unset v = (case v of None \<Rightarrow> True | Some s \<Rightarrow> s = [])"

text \<open>
  The reply of an external service is an input of the model. \<open>Threw\<close> carries \<open>String(err)\<close>
  of an exception raised by the call or while the text was read from the payload; \<open>Not_ok\<close>
  carries the body of a response whose status is not a success.
\<close>

datatype hf_reply = HF_threw string | HF_not_ok string | HF_generated string

datatype gemini_reply = Gemini_threw string | Gemini_generated string

datatype speech_reply = Speech_threw string | Speech_not_ok string | Speech_audio string

definition nl :: string where
  "nl = [CHR 0x0A]"

definition unlines :: "string list \<Rightarrow> string" where
  "unlines ls = concat (map (\<lambda>l. l @ nl) ls)"

definition valid_text :: "json option \<Rightarrow> string option" where
  \<comment> \<open>the question, unless \<open>!text || typeof text !== 'string' || text.trim().length === 0\<close>\<close>
  "valid_text t =
     (case t of
        Some (JStr s) \<Rightarrow> if s = [] \<or> length (trim s) = 0 then None else Some s
      | _ \<Rightarrow> None)"

definition test_re :: "string list \<Rightarrow> string \<Rightarrow> bool" where
  \<comment> \<open>\<open>/(a|b|c)/.test(q)\<close> for literal alternatives: one of them occurs in \<open>q\<close>\<close>
  "test_re alts q = list_ex (includes_js q) alts"

definition high :: "string \<Rightarrow> string \<Rightarrow> envelope" where
  "high t i = \<lparr>answer = t, confidence = ''high'', sources = [JStr i]\<rparr>"

definition assemble_prompt :: "string \<Rightarrow> string \<Rightarrow> string \<Rightarrow> string" where
  "assemble_prompt system ctx question =
     system @ nl @ nl @ ''CONTEXT:'' @ nl @ ctx @ nl @ nl @ ''QUESTION:'' @ nl @ question
       @ nl @ nl @ ''Reply now with ONLY the JSON object requested.''"

definition respond :: "nat \<Rightarrow> payload \<Rightarrow> event list \<Rightarrow> result" where
  "respond s b evs = \<lparr>reply = \<lparr>status = s, body = b\<rparr>, calls = evs\<rparr>"

section \<open>The chat handler of \<open>api/chat.js\<close>\<close>

definition SYSTEM_PROMPT :: string where
  \<open>SYSTEM_PROMPT = nl @ unlines
    [''You are the voice of the applicant Nitya. Follow these rules strictly:'',
     '''',
     ''1) Use ONLY the provided CONTEXT blocks. Do not invent facts. Speak in first person with a casual, warm tone.'',
     ''2) If the question cannot be answered using CONTEXT, respond with exactly:'',
     ''   {"answer":"I don't have verified information in my sources.","confidence":"low","sources":[]}'',
     ''3) Keep answers concise (<= 80 words), friendly, and human.'',
     ''4) ALWAYS return valid JSON and nothing else with keys:'',
     ''   - "answer": string'',
     ''   - "confidence": one of "high", "medium", "low"'',
     ''   - "sources": array of source ids (may be empty)'',
     ''5) No extra text outside the JSON object.'',
     '''',
     ''End of instructions.'']\<close>

definition KB_text :: "snippet list \<Rightarrow> string \<Rightarrow> string option" where
  \<comment> \<open>\<open>KB.find(k => k.id === i)?.text\<close>\<close>
  "KB_text KB i = map_option text_s (find (\<lambda>k. id_s k = i) KB)"

definition or_else :: "string option \<Rightarrow> string option \<Rightarrow> string option" where
  \<comment> \<open>\<open>a || b\<close> on texts that may be undefined\<close>
  "or_else a b = (case a of Some s \<Rightarrow> if s \<noteq> [] then a else b | None \<Rightarrow> b)"

definition canned_rows :: "snippet list \<Rightarrow> (string option \<times> string list \<times> string) list" where
  \<comment> \<open>the six \<open>if\<close> statements, in order: the text looked up beforehand, the alternatives of
      the pattern, the id put into \<open>sources\<close>\<close>
  "canned_rows KB =
    [(KB_text KB ''KB_LIFE'',
      [''what should we know'', ''life story'', ''who are you'', ''bio'', ''tell me about yourself''],
      ''KB_LIFE''),
     (KB_text KB ''KB_SUPERPOWER'',
      [''superpower'', ''super power'', ''strength'', ''best skill''],
      ''KB_SUPERPOWER''),
     (KB_text KB ''KB_GROW'',
      [''top 3'', ''areas to grow'', ''grow'', ''improve'', ''where do you want to grow''],
      ''KB_GROW''),
     (KB_text KB ''KB_PUSH'',
      [''push your boundaries'', ''push boundaries'', ''challenge yourself'', ''push your limits'',
       ''stretch yourself''],
      ''KB_PUSH''),
     (KB_text KB ''KB_MISCONCEPTION'',
      [''misconception'', ''what do people get wrong'', ''coworker'', ''misread you''],
      ''KB_MISCONCEPTION''),
     (or_else (KB_text KB ''KB_PERSONAL'') (KB_text KB ''KB_PERSONAL2''),
      [''interests'', ''hobbies'', ''outside of work'', ''what do you like''],
      ''KB_PERSONAL'')]"

fun canned_chain :: "(string option \<times> string list \<times> string) list \<Rightarrow> string \<Rightarrow> envelope option" where
  \<comment> \<open>\<open>if (lifeText && /.../.test(q)) return ...\<close>, one statement after the other\<close>
  "canned_chain [] q = None"
| "canned_chain ((txt, alts, i) # rest) q =
     (case txt of
        Some t \<Rightarrow> if t \<noteq> [] \<and> test_re alts q then Some (high t i) else canned_chain rest q
      | None \<Rightarrow> canned_chain rest q)"

definition handler :: "request \<Rightarrow> snippet list \<Rightarrow> env \<Rightarrow> (string \<Rightarrow> jobject option) \<Rightarrow> hf_reply \<Rightarrow> result" where
  "handler req KB e JSON_parse upstream =
     (if req_method req \<noteq> ''POST'' then respond 405 (Error ''Method not allowed'' None) []
      else case valid_text (text_field req) of
        None \<Rightarrow> respond 400 (Error ''No question text provided'' None) []
      | Some question \<Rightarrow>
          (case canned_chain (canned_rows KB) (toLowerCase question) of
             Some canned \<Rightarrow> respond 200 (Answer canned) []
           | None \<Rightarrow>
               (let built = buildContext question KB;
                    prompt = assemble_prompt SYSTEM_PROMPT (context_block built) question
                in if length (source_ids built) = 0
                   then respond 200
                          (Answer \<lparr>answer = no_information, confidence = ''low'', sources = []\<rparr>)
                          [ContextBuilt]
                   else if unset (HF_API_TOKEN e) \<or> unset (HF_MODEL e)
                   then respond 500
                          (Error ''Server not configured: set HF_API_TOKEN and HF_MODEL in env vars.'' None)
                          [ContextBuilt]
                   else (case upstream of
                           HF_threw err \<Rightarrow>
                             respond 500 (Error ''internal server error'' (Some err))
                               [ContextBuilt, ModelCall prompt]
                         | HF_not_ok b \<Rightarrow>
                             respond 502 (Error ''Model inference failed'' (Some b))
                               [ContextBuilt, ModelCall prompt]
                         | HF_generated generated \<Rightarrow>
                             respond 200 (Answer (parse_generated JSON_parse generated))
                               [ContextBuilt, ModelCall prompt]))))"

section \<open>The second Gemini chat handler (canned table, \<open>maxChunks\<close>)\<close>

definition SYSTEM_PROMPT_v2 :: string where
  \<open>SYSTEM_PROMPT_v2 = nl @ unlines
    [''You are Nitya. First person, casual, warm, concise.'',
     ''Use ONLY the provided CONTEXT blocks; do not invent or add facts.'',
     ''If the question cannot be answered from CONTEXT, respond exactly:'',
     ''{"answer":"I don't have verified information in my sources.","confidence":"low","sources":[]}'',
     ''Keep answers <= 80 words. Return ONLY valid JSON with keys:'',
     ''  "answer": string'',
     ''  "confidence": "high" | "medium" | "low"'',
     ''  "sources": array of source ids (may be empty)'',
     ''No extra text outside the JSON.'']\<close>

definition canned_table :: "(string list \<times> string) list" where
  "canned_table =
    [([''what should we know'', ''life story'', ''who are you'', ''bio'', ''tell me about yourself''],
      ''KB_LIFE''),
     ([''superpower'', ''super power'', ''strength'', ''best skill''], ''KB_SUPERPOWER''),
     ([''how did you build'', ''tech stack'', ''how was this made'', ''architecture''],
      ''KB_ARCHITECTURE''),
     ([''top 3'', ''areas to grow'', ''grow'', ''improve'', ''where do you want to grow''], ''KB_GROW''),
     ([''push your boundaries'', ''push boundaries'', ''challenge yourself'', ''push your limits'',
       ''stretch yourself''],
      ''KB_PUSH''),
     ([''misconception'', ''what do people get wrong'', ''coworker'', ''misread you''],
      ''KB_MISCONCEPTION''),
     ([''interests'', ''hobbies'', ''outside of work'', ''what do you like''], ''KB_PERSONAL''),
     ([''rainsafe'', ''flood''], ''KB_PROJECT_RAINSAFE''),
     ([''ovabloom'', ''pcos''], ''KB_PROJECT_OVABLOOM'')]"

fun canned_loop :: "(string list \<times> string) list \<Rightarrow> string \<Rightarrow> snippet list \<Rightarrow> envelope option" where
  \<comment> \<open>\<open>for (const c of canned) if (c.re.test(q)) { hit = KB.find(...); if (hit) return ... }\<close>\<close>
  "canned_loop [] q KB = None"
| "canned_loop ((alts, i) # rest) q KB =
     (if test_re alts q
      then (case find (\<lambda>k. id_s k = i) KB of
              Some hit \<Rightarrow> Some (high (text_s hit) i)
            | None \<Rightarrow> canned_loop rest q KB)
      else canned_loop rest q KB)"

definition handler_v2 :: "request \<Rightarrow> snippet list \<Rightarrow> env \<Rightarrow> (string \<Rightarrow> jobject option) \<Rightarrow> gemini_reply \<Rightarrow> result" where
  "handler_v2 req KB e JSON_parse upstream =
     (if req_method req \<noteq> ''POST'' then respond 405 (Error ''Method not allowed'' None) []
      else case valid_text (text_field req) of
        None \<Rightarrow> respond 400 (Error ''No question text provided'' None) []
      | Some question \<Rightarrow>
          (case canned_loop canned_table (toLowerCase question) KB of
             Some canned \<Rightarrow> respond 200 (Answer canned) []
           | None \<Rightarrow>
               (let built = buildContext_v2 question KB 5;
                    prompt = assemble_prompt SYSTEM_PROMPT_v2 (context_block built) question
                in if length (source_ids built) = 0
                   then respond 200
                          (Answer \<lparr>answer = no_information, confidence = ''low'', sources = []\<rparr>)
                          [ContextBuilt]
                   else if unset (GEMINI_API_KEY e)
                   then respond 500 (Error ''Server not configured: set GEMINI_API_KEY.'' None)
                          [ContextBuilt]
                   else (case upstream of
                           Gemini_threw err \<Rightarrow>
                             respond 500 (Error ''internal server error'' (Some err))
                               [ContextBuilt, ModelCall prompt]
                         | Gemini_generated generated \<Rightarrow>
                             respond 200 (Answer (parse_generated JSON_parse generated))
                               [ContextBuilt, ModelCall prompt]))))"

section \<open>The speech handler that cleans its text\<close>

definition handler_tts :: "request \<Rightarrow> env \<Rightarrow> speech_reply \<Rightarrow> result" where
  "handler_tts req e upstream =
     (if req_method req \<noteq> ''POST'' then respond 405 (Error ''Method not allowed'' None) []
      else case text_field req of
        None \<Rightarrow> respond 400 (Error ''No text provided'' None) []
      | Some v \<Rightarrow>
          if \<not> truthy v then respond 400 (Error ''No text provided'' None) []
          else (case v of
                  JStr s \<Rightarrow>
                    if trim s = [] then respond 400 (Error ''No text provided'' None) []
                    else (let cleaned = sanitize s
                          in if unset (ELEVENLABS_API_KEY e)
                             then respond 500 (Error ''ELEVENLABS_API_KEY not set'' None) []
                             else (case upstream of
                                     Speech_threw err \<Rightarrow>
                                       respond 500 (Error ''internal server error'' (Some err))
                                         [SpeechCall cleaned]
                                   | Speech_not_ok b \<Rightarrow>
                                       respond 502 (Error ''TTS failed'' (Some b)) [SpeechCall cleaned]
                                   | Speech_audio audio \<Rightarrow>
                                       respond 200 (Audio audio) [SpeechCall cleaned]))
                | _ \<Rightarrow>
                    respond 500
                      (Error ''internal server error'' (Some ''TypeError: text.trim is not a function''))
                      []))"

section \<open>Evaluating \<open>toLowerCase\<close>\<close>

text \<open>On the eight bits of a character \<open>lowerChar\<close> sets bit 5 of the capitals and nothing else.\<close>

lemma lowerChar_Char [code]:
  "lowerChar (Char b0 b1 b2 b3 b4 b5 b6 b7) =
     (if b6 \<and> \<not> b5 \<and>
         (if b7 then \<not> (b0 \<and> b1 \<and> b2 \<and> b3 \<and> b4) \<and> \<not> (b0 \<and> b1 \<and> b2 \<and> \<not> b3 \<and> b4)
          else (b0 \<or> b1 \<or> b2 \<or> b3 \<or> b4) \<and> \<not> (b4 \<and> b3 \<and> (b2 \<or> (b1 \<and> b0))))
      then Char b0 b1 b2 b3 b4 True b6 b7
      else Char b0 b1 b2 b3 b4 b5 b6 b7)"
  by (cases b0; cases b1; cases b2; cases b3; cases b4; cases b5; cases b6; cases b7;
      simp add: lowerChar_def char_of_def bit_Suc_0_iff)

section \<open>Properties of the sanitizer\<close>

lemma replace_g_absent: "\<not> includes_js s p \<Longrightarrow> replace_g s p r = s"
  by (induction s) auto

lemma startsWith_length: "startsWith s p \<Longrightarrow> length p \<le> length s"
  by (induction s p rule: startsWith.induct) auto

lemma length_replace_g_le: "length r \<le> length p \<Longrightarrow> length (replace_g s p r) \<le> length s"
proof (induction s p r rule: replace_g.induct)
  case (1 p r)
  then show ?case by simp
next
  case (2 c cs p r)
  show ?case
  proof (cases "p \<noteq> [] \<and> startsWith (c # cs) p")
    case True
    then have "length p \<le> length (c # cs)" using startsWith_length by blast
    moreover have "length (replace_g (drop (length p) (c # cs)) p r) \<le> length (c # cs) - length p"
      using "2.IH"(1)[OF True "2.prems"] by simp
    ultimately show ?thesis using True "2.prems" by simp
  next
    case False
    then show ?thesis using "2.IH"(2)[OF False "2.prems"] by auto
  qed
qed

lemma replace_g_same_length:
  "length r < length p \<Longrightarrow> length (replace_g s p r) = length s \<Longrightarrow> \<not> includes_js s p"
proof (induction s p r rule: replace_g.induct)
  case (1 p r)
  then show ?case by auto
next
  case (2 c cs p r)
  show ?case
  proof (cases "p \<noteq> [] \<and> startsWith (c # cs) p")
    case True
    have "length (replace_g (drop (length p) (c # cs)) p r) \<le> length (drop (length p) (c # cs))"
      using "2.prems"(1) by (intro length_replace_g_le) simp
    moreover from True have "length p \<le> length (c # cs)" using startsWith_length by blast
    ultimately show ?thesis using True "2.prems" by simp
  next
    case False
    with "2.prems" have "p \<noteq> []" by auto
    with False have ns: "\<not> startsWith (c # cs) p" by simp
    from False "2.prems" have "length (replace_g cs p r) = length cs" by auto
    with "2.IH"(2)[OF False "2.prems"(1)] have "\<not> includes_js cs p" by simp
    with ns show ?thesis by simp
  qed
qed

lemma dropWhile_fixed: "xs = [] \<or> \<not> P (hd xs) \<Longrightarrow> dropWhile P xs = xs"
  by (cases xs) auto

lemma last_dropWhile: "dropWhile P xs \<noteq> [] \<Longrightarrow> last (dropWhile P xs) = last xs"
  by (induction xs) (auto split: if_splits)

lemma trim_idem: "trim (trim s) = trim s"
proof -
  define t where "t = dropWhile isWhiteSpace s"
  define u where "u = dropWhile isWhiteSpace (rev t)"
  have t: "t = [] \<or> \<not> isWhiteSpace (hd t)"
    unfolding t_def by (metis hd_dropWhile)
  have u: "u = [] \<or> \<not> isWhiteSpace (hd u)"
    unfolding u_def by (metis hd_dropWhile)
  have "u = [] \<or> \<not> isWhiteSpace (last u)"
  proof (cases "u = []")
    case False
    then have "last u = last (rev t)" unfolding u_def by (rule last_dropWhile)
    moreover from False have "t \<noteq> []" unfolding u_def by auto
    ultimately show ?thesis using t by (simp add: last_rev)
  qed simp
  then have "rev u = [] \<or> \<not> isWhiteSpace (hd (rev u))"
    by (cases "u = []") (simp_all add: hd_rev)
  then have "dropWhile isWhiteSpace (rev u) = rev u" by (rule dropWhile_fixed)
  moreover have "dropWhile isWhiteSpace u = u" using u by (rule dropWhile_fixed)
  ultimately have "trim (rev u) = rev u" by (simp add: trim_def)
  moreover have "trim s = rev u" by (simp add: trim_def t_def u_def)
  ultimately show ?thesis by simp
qed

lemma length_trim_le: "length (trim s) \<le> length s"
  unfolding trim_def
  by (metis length_dropWhile_le length_rev order_trans)


lemma has_pattern_iff:
  \<open>has_pattern s \<longleftrightarrow>
     includes_js s ''```json'' \<or> includes_js s ''```'' \<or> includes_js s ''{'' \<or> includes_js s ''}'' \<or>
     includes_js s ''"answer":'' \<or> includes_js s ''Confidence: low'' \<or> includes_js s backslash_n\<close>
  by (simp add: has_pattern_def patterns_def)

lemma sanitize_clean: "\<not> has_pattern y \<Longrightarrow> sanitize y = trim y"
  by (simp add: has_pattern_iff sanitize_def replace_g_absent)

lemma sanitize_fixed_clean:
  assumes eq: "sanitize y = y"
  shows "\<not> has_pattern y"
proof -
  define y1 where \<open>y1 = replace_g y ''```json'' ''''\<close>
  define y2 where \<open>y2 = replace_g y1 ''```'' ''''\<close>
  define y3 where \<open>y3 = replace_g y2 ''{'' ''''\<close>
  define y4 where \<open>y4 = replace_g y3 ''}'' ''''\<close>
  define y5 where \<open>y5 = replace_g y4 ''"answer":'' ''''\<close>
  define y6 where \<open>y6 = replace_g y5 ''Confidence: low'' ''''\<close>
  define y7 where \<open>y7 = replace_g y6 backslash_n '' ''\<close>
  have "sanitize y = trim y7"
    by (simp add: sanitize_def y1_def y2_def y3_def y4_def y5_def y6_def y7_def)
  with eq length_trim_le [of y7] have l8: "length y \<le> length y7" by simp
  have l7: "length y7 \<le> length y6" unfolding y7_def
    by (rule length_replace_g_le) (simp add: backslash_n_def)
  have l6: "length y6 \<le> length y5" unfolding y6_def by (rule length_replace_g_le) simp
  have l5: "length y5 \<le> length y4" unfolding y5_def by (rule length_replace_g_le) simp
  have l4: "length y4 \<le> length y3" unfolding y4_def by (rule length_replace_g_le) simp
  have l3: "length y3 \<le> length y2" unfolding y3_def by (rule length_replace_g_le) simp
  have l2: "length y2 \<le> length y1" unfolding y2_def by (rule length_replace_g_le) simp
  have l1: "length y1 \<le> length y" unfolding y1_def by (rule length_replace_g_le) simp
  have e1: "length y1 = length y" using l1 l2 l3 l4 l5 l6 l7 l8 by linarith
  have p1: \<open>\<not> includes_js y ''```json''\<close>
    by (rule replace_g_same_length [where r = "''''"]) (use e1 in \<open>simp_all add: y1_def\<close>)
  then have y1: "y1 = y" by (simp add: y1_def replace_g_absent)
  have e2: "length y2 = length y" using l1 l2 l3 l4 l5 l6 l7 l8 by linarith
  have p2: \<open>\<not> includes_js y ''```''\<close>
    by (rule replace_g_same_length [where r = "''''"]) (use e2 y1 in \<open>simp_all add: y2_def\<close>)
  then have y2: "y2 = y" by (simp add: y2_def y1 replace_g_absent)
  have e3: "length y3 = length y" using l1 l2 l3 l4 l5 l6 l7 l8 by linarith
  have p3: \<open>\<not> includes_js y ''{''\<close>
    by (rule replace_g_same_length [where r = "''''"]) (use e3 y2 in \<open>simp_all add: y3_def\<close>)
  then have y3: "y3 = y" by (simp add: y3_def y2 replace_g_absent)
  have e4: "length y4 = length y" using l1 l2 l3 l4 l5 l6 l7 l8 by linarith
  have p4: \<open>\<not> includes_js y ''}''\<close>
    by (rule replace_g_same_length [where r = "''''"]) (use e4 y3 in \<open>simp_all add: y4_def\<close>)
  then have y4: "y4 = y" by (simp add: y4_def y3 replace_g_absent)
  have e5: "length y5 = length y" using l1 l2 l3 l4 l5 l6 l7 l8 by linarith
  have p5: \<open>\<not> includes_js y ''"answer":''\<close>
    by (rule replace_g_same_length [where r = "''''"]) (use e5 y4 in \<open>simp_all add: y5_def\<close>)
  then have y5: "y5 = y" by (simp add: y5_def y4 replace_g_absent)
  have e6: "length y6 = length y" using l1 l2 l3 l4 l5 l6 l7 l8 by linarith
  have p6: \<open>\<not> includes_js y ''Confidence: low''\<close>
    by (rule replace_g_same_length [where r = "''''"]) (use e6 y5 in \<open>simp_all add: y6_def\<close>)
  then have y6: "y6 = y" by (simp add: y6_def y5 replace_g_absent)
  have e7: "length y7 = length y" using l1 l2 l3 l4 l5 l6 l7 l8 by linarith
  have p7: \<open>\<not> includes_js y backslash_n\<close>
    by (rule replace_g_same_length [where r = "'' ''"])
       (use e7 y6 in \<open>simp_all add: y7_def backslash_n_def\<close>)
  from p1 p2 p3 p4 p5 p6 p7 show ?thesis by (simp add: has_pattern_iff)
qed

lemma trim_sanitize: "trim (sanitize x) = sanitize x"
  by (simp add: sanitize_def trim_idem)

text \<open>
  Claim C3 says that the sanitizer is idempotent on every input. It is not: a later removal
  can join the two halves of a pattern that an earlier step was looking for. On the four
  characters backtick, backtick, opening brace, backtick the brace is removed after the
  fence step has run, which leaves three backticks; a second pass removes them.
\<close>

theorem sanitize_not_idempotent:
  "sanitize (sanitize ''``{`'') \<noteq> sanitize ''``{`''"
  by code_simp

text \<open>
  C3, as amended: applying the sanitizer twice gives the same text as applying it once exactly
  when the text it produced the first time contains none of the seven patterns
  (the json fence, the fence, the two braces, the answer label, \<open>Confidence: low\<close> and
  backslash-n).
\<close>

theorem sanitize_twice_iff:
  "sanitize (sanitize x) = sanitize x \<longleftrightarrow> \<not> has_pattern (sanitize x)"
proof
  assume "sanitize (sanitize x) = sanitize x"
  then show "\<not> has_pattern (sanitize x)" by (rule sanitize_fixed_clean)
next
  assume "\<not> has_pattern (sanitize x)"
  then have "sanitize (sanitize x) = trim (sanitize x)" by (rule sanitize_clean)
  then show "sanitize (sanitize x) = sanitize x" by (simp add: trim_sanitize)
qed

theorem sanitize_twice_iff_witness:
  \<open>sanitize (sanitize ''{"answer": Hello}'') = sanitize ''{"answer": Hello}'' \<and>
   \<not> has_pattern (sanitize ''{"answer": Hello}'') \<and> sanitize ''{"answer": Hello}'' = ''Hello''\<close>
proof -
  have s: \<open>sanitize ''{"answer": Hello}'' = ''Hello''\<close> by code_simp
  have "\<not> has_pattern ''Hello''" by code_simp
  with s sanitize_twice_iff [of \<open>''{"answer": Hello}''\<close>] show ?thesis by simp
qed

section \<open>Properties of the context selector\<close>

subsection \<open>Insertion-ordered sets\<close>

lemma foldl_Set_add_distinct:
  "distinct (map key (acc @ xs)) \<Longrightarrow> foldl (Set_add key) acc xs = acc @ xs"
proof (induction xs arbitrary: acc)
  case Nil
  then show ?case by simp
next
  case (Cons x xs)
  from Cons.prems have "Set_add key acc x = acc @ [x]" by (auto simp: Set_add_def)
  moreover from Cons.prems have "distinct (map key ((acc @ [x]) @ xs))" by simp
  ultimately show ?case using Cons.IH [of "acc @ [x]"] by simp
qed

lemma new_Set_distinct: "distinct (map key xs) \<Longrightarrow> new_Set key xs = xs"
  using foldl_Set_add_distinct [of key "[]" xs] by (simp add: new_Set_def)

lemma foldl_Set_add_props:
  "distinct (map key acc) \<Longrightarrow>
   distinct (map key (foldl (Set_add key) acc xs)) \<and>
   set (foldl (Set_add key) acc xs) \<subseteq> set acc \<union> set xs \<and>
   (\<exists>zs. foldl (Set_add key) acc xs = acc @ zs)"
proof (induction xs arbitrary: acc)
  case Nil
  then show ?case by simp
next
  case (Cons x xs)
  have d: "distinct (map key (Set_add key acc x))"
    using Cons.prems by (auto simp: Set_add_def)
  have s: "set (Set_add key acc x) \<subseteq> set acc \<union> {x}" by (auto simp: Set_add_def)
  have "\<exists>ys. Set_add key acc x = acc @ ys" by (simp add: Set_add_def)
  then obtain ys where ys: "Set_add key acc x = acc @ ys" ..
  from Cons.IH [OF d] s ys show ?case by auto
qed

lemma new_Set_keys_distinct: "distinct (map key (new_Set key xs))"
  using foldl_Set_add_props [of key "[]" xs] by (simp add: new_Set_def)

lemma new_Set_subset: "set (new_Set key xs) \<subseteq> set xs"
  using foldl_Set_add_props [of key "[]" xs] by (simp add: new_Set_def)

lemma new_Set_append_distinct:
  assumes "distinct (map key xs)"
  shows "\<exists>zs. new_Set key (xs @ ys) = xs @ zs"
proof -
  have "new_Set key (xs @ ys) = foldl (Set_add key) (foldl (Set_add key) [] xs) ys"
    by (simp add: new_Set_def)
  also have "foldl (Set_add key) [] xs = xs"
    using foldl_Set_add_distinct [of key "[]" xs] assms by simp
  finally show ?thesis using foldl_Set_add_props [of key xs ys] assms by auto
qed

subsection \<open>The objects of the knowledge base\<close>

lemma map_ref_kb_items: "map ref (kb_items kb) = map Loaded [0..<length kb]"
proof -
  have "map ref (kb_items kb) = map (\<lambda>p. Loaded (fst p)) (enumerate 0 kb)"
    by (simp add: kb_items_def split_def comp_def)
  also have "\<dots> = map Loaded (map fst (enumerate 0 kb))"
    by (simp only: map_map comp_def)
  also have "\<dots> = map Loaded [0..<length kb]"
    by (simp only: map_fst_enumerate add_0)
  finally show ?thesis .
qed

lemma map_id_of_kb_items: "map id_of (kb_items kb) = map id_s kb"
proof -
  have "map id_of (kb_items kb) = map (\<lambda>p. id_s (snd p)) (enumerate 0 kb)"
    by (simp add: kb_items_def split_def comp_def)
  also have "\<dots> = map id_s (map snd (enumerate 0 kb))"
    by (simp only: map_map comp_def)
  also have "\<dots> = map id_s kb"
    by (simp only: map_snd_enumerate)
  finally show ?thesis .
qed

lemma distinct_ref_kb_items: "distinct (map ref (kb_items kb))"
  by (simp add: map_ref_kb_items distinct_map inj_on_def)

lemma distinct_kb_items: "distinct (kb_items kb)"
  using distinct_ref_kb_items by (rule distinct_map [THEN iffD1, THEN conjunct1])

lemma distinct_map_sublist:
  assumes "distinct (map f ys)" and "distinct xs" and "set xs \<subseteq> set ys"
  shows "distinct (map f xs)"
proof -
  from assms(1) have "inj_on f (set ys)" by (simp add: distinct_map)
  with assms(3) have "inj_on f (set xs)" by (blast intro: inj_on_subset)
  with assms(2) show ?thesis by (simp add: distinct_map)
qed

subsection \<open>Anchors and hits\<close>

lemma find_in_set: "find P xs = Some x \<Longrightarrow> x \<in> set xs \<and> P x"
  by (induction xs) (auto split: if_splits)

lemma anchors_subset: "set (anchors items) \<subseteq> set items"
  by (auto simp: anchors_def filter_Boolean_def split: option.splits
           dest: find_in_set find_in_set [OF sym])

lemma distinct_anchors: "distinct (anchors items)"
  by (auto simp: anchors_def filter_Boolean_def split: option.splits
           dest!: find_in_set find_in_set [OF sym])

lemma distinct_ref_anchors: "distinct (map ref (anchors (kb_items kb)))"
  using distinct_ref_kb_items distinct_anchors anchors_subset by (rule distinct_map_sublist)

lemma distinct_ref_anchors_v2: "distinct (map ref (anchors_v2 (kb_items kb)))"
  unfolding anchors_v2_def using distinct_ref_kb_items by (rule distinct_map_filter)

lemma hits_foldl_subset:
  "set (foldl (\<lambda>s k. if list_ex (matches k) toks then Set_add ref s k else s) acc items)
     \<subseteq> set acc \<union> set items"
proof (induction items arbitrary: acc)
  case Nil
  then show ?case by simp
next
  case (Cons k items)
  have "set (Set_add ref acc k) \<subseteq> set acc \<union> {k}" by (auto simp: Set_add_def)
  with Cons.IH [of "Set_add ref acc k"] Cons.IH [of acc] show ?case by auto
qed

lemma hits_subset: "set (hits toks items) \<subseteq> set items"
  using hits_foldl_subset [of toks "[]" items] by (simp add: hits_def)

lemma hits_foldl_none:
  "\<forall>k\<in>set items. \<not> list_ex (matches k) toks \<Longrightarrow>
   foldl (\<lambda>s k. if list_ex (matches k) toks then Set_add ref s k else s) acc items = acc"
  by (induction items arbitrary: acc) simp_all

lemma short_tokens_no_match: "\<forall>tok\<in>set toks. length tok \<le> 2 \<Longrightarrow> \<not> list_ex (matches k) toks"
  by (auto simp: list_ex_iff matches_def)

lemma short_tokens_hits: "\<forall>tok\<in>set toks. length tok \<le> 2 \<Longrightarrow> hits toks items = []"
  unfolding hits_def by (rule hits_foldl_none) (simp add: short_tokens_no_match)

lemma short_tokens_score: "\<forall>tok\<in>set toks. length tok \<le> 2 \<Longrightarrow> score_of toks k = 0"
  by (auto simp: score_of_def matches_def filter_empty_conv)

lemma short_tokens_scored: "\<forall>tok\<in>set toks. length tok \<le> 2 \<Longrightarrow> scored toks items = []"
  by (simp add: scored_def short_tokens_score filter_empty_conv split_def)

subsection \<open>The selector of \<open>api/chat.js\<close> removes duplicates\<close>

lemma buildContext_sources_distinct:
  assumes "distinct (map id_s kb)"
  shows "distinct (source_ids (buildContext query kb))"
proof -
  define sel where "sel = new_Set ref (anchors (kb_items kb) @ hits (tokens query) (kb_items kb))"
  have "distinct (map ref sel)" unfolding sel_def by (rule new_Set_keys_distinct)
  then have d: "distinct sel" by (simp add: distinct_map)
  have "set sel \<subseteq> set (anchors (kb_items kb) @ hits (tokens query) (kb_items kb))"
    unfolding sel_def by (rule new_Set_subset)
  with anchors_subset [of "kb_items kb"] hits_subset [of "tokens query" "kb_items kb"]
  have s: "set sel \<subseteq> set (kb_items kb)" by auto
  from assms have "distinct (map id_of (kb_items kb))" by (simp add: map_id_of_kb_items)
  then have "distinct (map id_of sel)" using d s by (rule distinct_map_sublist)
  then show ?thesis by (simp add: buildContext_def Let_def sel_def)
qed

lemma buildContext_anchors_first:
  "\<exists>rest. source_ids (buildContext query kb) = map id_of (anchors (kb_items kb)) @ rest"
proof -
  from new_Set_append_distinct [OF distinct_ref_anchors]
  obtain zs where "new_Set ref (anchors (kb_items kb) @ hits (tokens query) (kb_items kb))
                   = anchors (kb_items kb) @ zs" by blast
  then show ?thesis by (simp add: buildContext_def Let_def)
qed

subsection \<open>The selector with \<open>maxChunks\<close> repeats an anchor that scored\<close>

text \<open>
  Claim C1 says that \<open>buildContext\<close> removes duplicates by identity across the anchors and
  the scored hits, so that no snippet id is listed twice. The selector of \<open>api/chat.js\<close> does
  (\<open>buildContext_sources_distinct\<close>, \<open>buildContext_anchors_first\<close>). The selector with
  \<open>maxChunks\<close> scores copies made by \<open>{ ...item, score }\<close>; a copy is never the object it
  was copied from, so \<open>new Set\<close> keeps both. On the question below the skills snippet is an
  anchor and the only snippet that scores, and its id is returned twice.
\<close>

theorem buildContext_v2_repeats_anchor:
  "source_ids (buildContext_v2 ''Do you know Figma?'' KB_fallback_v2 5) =
     [''KB_LIFE'', ''KB_SKILLS'', ''KB_ARCHITECTURE'', ''KB_SUPERPOWER'', ''KB_SKILLS'']"
  by code_simp

subsection \<open>Tokens that are too short to score\<close>

text \<open>
  Claim C2 puts the bound at three characters. The test in both selectors is
  \<open>tok.length > 2\<close>, so a token of exactly three characters scores: the question below has
  the tokens \<open>is\<close>, \<open>it\<close> and \<open>rag\<close>, and \<open>rag\<close> brings in the growth snippet, which is not
  an anchor.
\<close>

theorem three_letter_token_scores:
  "map length (tokens ''Is it RAG?'') = [2, 2, 3] \<and>
   source_ids (buildContext ''Is it RAG?'' KB_fallback) = [''KB_LIFE'', ''KB_SUPERPOWER'', ''KB_GROW''] \<and>
   map id_of (anchors (kb_items KB_fallback)) = [''KB_LIFE'', ''KB_SUPERPOWER'']"
  by code_simp

text \<open>
  C2, as amended: for every query all of whose normalized tokens have length at most 2, no
  snippet matches a token or accrues any score, there are no hits and no scored snippets, and
  the sources returned are exactly the anchors, in both selectors and for every knowledge base.
\<close>

theorem short_tokens_only_anchors:
  assumes "\<forall>tok\<in>set (tokens query). length tok \<le> 2"
  shows "(\<forall>k. \<not> list_ex (matches k) (tokens query) \<and> score_of (tokens query) k = 0) \<and>
         hits (tokens query) (kb_items kb) = [] \<and>
         scored (tokens query) (kb_items kb) = [] \<and>
         source_ids (buildContext query kb) = map id_of (anchors (kb_items kb)) \<and>
         source_ids (buildContext_v2 query kb maxChunks) = map id_of (anchors_v2 (kb_items kb))"
proof -
  note h = short_tokens_hits [OF assms] and s = short_tokens_scored [OF assms]
  have "source_ids (buildContext query kb) = map id_of (anchors (kb_items kb))"
    by (simp add: buildContext_def Let_def h new_Set_distinct distinct_ref_anchors)
  moreover have "source_ids (buildContext_v2 query kb maxChunks) = map id_of (anchors_v2 (kb_items kb))"
    by (simp add: buildContext_v2_def Let_def s new_Set_distinct distinct_ref_anchors_v2)
  ultimately show ?thesis
    using h s short_tokens_no_match [OF assms] short_tokens_score [OF assms] by simp
qed

theorem short_tokens_only_anchors_witness:
  "tokens ''Hi, AI?'' = [''hi'', ''ai''] \<and>
   hits (tokens ''Hi, AI?'') (kb_items KB_fallback) = [] \<and>
   scored (tokens ''Hi, AI?'') (kb_items KB_fallback) = [] \<and>
   source_ids (buildContext ''Hi, AI?'' KB_fallback) = [''KB_LIFE'', ''KB_SUPERPOWER''] \<and>
   source_ids (buildContext_v2 ''Hi, AI?'' KB_fallback 5) = [''KB_LIFE'', ''KB_SUPERPOWER'', ''KB_SKILLS'']"
proof -
  have t: "tokens ''Hi, AI?'' = [''hi'', ''ai'']" by code_simp
  then have short: "\<forall>tok\<in>set (tokens ''Hi, AI?''). length tok \<le> 2" by simp
  have a: "map id_of (anchors (kb_items KB_fallback)) = [''KB_LIFE'', ''KB_SUPERPOWER'']"
    by code_simp
  have b: "map id_of (anchors_v2 (kb_items KB_fallback)) = [''KB_LIFE'', ''KB_SUPERPOWER'', ''KB_SKILLS'']"
    by code_simp
  from short_tokens_only_anchors [OF short, of KB_fallback 5] t a b show ?thesis by simp
qed

section \<open>Properties of the model response parser\<close>

lemma fallback_low: "confidence (fallback g) = ''low'' \<and> sources (fallback g) = []"
  by (simp add: fallback_def Let_def)

lemma length_answer_fallback: "length (answer (fallback g)) \<le> 2000"
  by (simp add: fallback_def Let_def no_information_def)


lemma confidence_of_empty: "confidence_of parsed [] = ''low''"
  by (simp add: confidence_of_def)


lemma envelope_of_sources_low:
  "envelope_of parsed = Inr e \<Longrightarrow> sources e = [] \<Longrightarrow> confidence e = ''low''"
  by (auto simp: envelope_of_def Let_def confidence_of_empty split: sum.splits if_splits)

lemma parse_generated_sources_low:
  "sources (parse_generated P g) = [] \<Longrightarrow> confidence (parse_generated P g) = ''low''"
  by (auto simp: parse_generated_def fallback_low envelope_of_sources_low
           split: option.splits sum.splits)

lemma parse_generated_fallback:
  assumes "match_braces g = None \<or> (\<exists>m. match_braces g = Some m \<and> P m = None)"
  shows "parse_generated P g = fallback g"
  using assms by (auto simp: parse_generated_def)


lemma parse_generated_threw:
  assumes "match_braces g = Some m" and "P m = Some parsed"
    and "answer_of parsed = Inl err \<or> sources_of parsed = Inl err"
  shows "parse_generated P g = fallback g"
  using assms by (auto simp: parse_generated_def envelope_of_def split: sum.splits)



lemma js_String_scalar:
  "(\<forall>ps. v \<noteq> JObj ps) \<Longrightarrow> (\<forall>xs. v \<noteq> JArr xs) \<Longrightarrow> \<exists>s. js_String v = Inr s"
  by (cases v) auto

lemma take_trim_empty: "take 2000 (trim g) = [] \<longleftrightarrow> trim g = []"
  by simp




text \<open>
  Claim C6 says that without a brace-delimited substring the answer is the raw trimmed text.
  When that text is empty the code answers with its fixed sentence instead.
\<close>

theorem empty_output_fixed_message:
  "parse_generated (map_of []) '''' =
     \<lparr>answer = ''I don't have verified information in my sources.'', confidence = ''low'', sources = []\<rparr>"
  by code_simp

text \<open>
  C6, as amended: for every model output with no brace-delimited substring, and whenever the
  extracted substring fails to parse as JSON, the answer is the raw trimmed text cut to 2000
  characters, or the fixed no-information sentence when the trimmed text is empty, with
  confidence low and empty sources.
\<close>

theorem unparsable_output_falls_back:
  assumes "match_braces generated = None
           \<or> (\<exists>m. match_braces generated = Some m \<and> JSON_parse m = None)"
  shows "parse_generated JSON_parse generated =
           \<lparr>answer = (if trim generated = [] then no_information else take 2000 (trim generated)),
            confidence = ''low'', sources = []\<rparr>"
  using parse_generated_fallback [OF assms] by (simp add: fallback_def Let_def)

theorem unparsable_output_falls_back_witness:
  "parse_generated (map_of []) '' I am not sure. '' =
     \<lparr>answer = ''I am not sure.'', confidence = ''low'', sources = []\<rparr> \<and>
   parse_generated (map_of []) ''{oops}'' = \<lparr>answer = ''{oops}'', confidence = ''low'', sources = []\<rparr>"
proof -
  have m1: "match_braces '' I am not sure. '' = None" by code_simp
  have t1: "trim '' I am not sure. '' = ''I am not sure.''" by code_simp
  have m2: "match_braces ''{oops}'' = Some ''{oops}''" by code_simp
  have t2: "trim ''{oops}'' = ''{oops}''" by code_simp
  have a: "match_braces '' I am not sure. '' = None
           \<or> (\<exists>m. match_braces '' I am not sure. '' = Some m \<and> (map_of [] :: string \<Rightarrow> jobject option) m = None)"
    using m1 by simp
  have b: "match_braces ''{oops}'' = None
           \<or> (\<exists>m. match_braces ''{oops}'' = Some m \<and> (map_of [] :: string \<Rightarrow> jobject option) m = None)"
    using m2 by simp
  from unparsable_output_falls_back [where JSON_parse = "map_of []", OF a]
    unparsable_output_falls_back [where JSON_parse = "map_of []", OF b] t1 t2
  show ?thesis by simp
qed

section \<open>Properties of the handlers\<close>

subsection \<open>Canned answers\<close>

lemma canned_loop_first:
  assumes "\<forall>(alts', i')\<in>set pre. \<not> (test_re alts' q \<and> find (\<lambda>k. id_s k = i') KB \<noteq> None)"
    and "test_re alts q" and "find (\<lambda>k. id_s k = i) KB = Some hit"
  shows "canned_loop (pre @ (alts, i) # post) q KB = Some (high (text_s hit) i)"
  using assms by (induction pre) (auto split: option.splits)

lemma canned_chain_first:
  assumes "\<forall>(tx', alts', i')\<in>set pre. \<not> (tx' \<noteq> None \<and> tx' \<noteq> Some [] \<and> test_re alts' q)"
    and "t \<noteq> []" and "test_re alts q"
  shows "canned_chain (pre @ (Some t, alts, i) # post) q = Some (high t i)"
  using assms by (induction pre) (auto split: option.splits)

lemma canned_loop_Some:
  "canned_loop tbl q KB = Some a \<Longrightarrow>
     \<exists>hit\<in>set KB. \<exists>alts. (alts, id_s hit) \<in> set tbl \<and> test_re alts q \<and> a = high (text_s hit) (id_s hit)"
proof (induction tbl)
  case Nil
  then show ?case by simp
next
  case (Cons row tbl)
  obtain alts i where row: "row = (alts, i)" by (cases row)
  show ?case
  proof (cases "test_re alts q \<and> find (\<lambda>k. id_s k = i) KB \<noteq> None")
    case True
    then obtain hit where hit: "find (\<lambda>k. id_s k = i) KB = Some hit" by auto
    with True Cons.prems row have a: "a = high (text_s hit) i" by simp
    from hit have "hit \<in> set KB \<and> id_s hit = i" by (auto simp: find_Some_iff)
    with a True row show ?thesis by auto
  next
    case False
    with Cons.prems row have "canned_loop tbl q KB = Some a" by (auto split: if_splits option.splits)
    from Cons.IH [OF this] show ?thesis by auto
  qed
qed

lemma KB_text_Some: "KB_text KB i = Some t \<Longrightarrow> \<exists>hit\<in>set KB. id_s hit = i \<and> text_s hit = t"
  by (auto simp: KB_text_def find_Some_iff)

lemma or_else_Some: "or_else a b = Some t \<Longrightarrow> a = Some t \<or> b = Some t"
  by (auto simp: or_else_def split: option.splits if_splits)

lemma canned_rows_text:
  "(Some t, alts, i) \<in> set (canned_rows KB) \<Longrightarrow> \<exists>hit\<in>set KB. text_s hit = t"
  by (auto simp: canned_rows_def dest!: or_else_Some [OF sym] dest: KB_text_Some KB_text_Some [OF sym])

lemma canned_chain_Some:
  "canned_chain rows q = Some a \<Longrightarrow>
     \<exists>t alts i. (Some t, alts, i) \<in> set rows \<and> t \<noteq> [] \<and> test_re alts q \<and> a = high t i"
proof (induction rows)
  case Nil
  then show ?case by simp
next
  case (Cons row rows)
  obtain tx alts i where row: "row = (tx, alts, i)" by (cases row)
  show ?case
  proof (cases "\<exists>t. tx = Some t \<and> t \<noteq> [] \<and> test_re alts q")
    case True
    then obtain t where "tx = Some t" "t \<noteq> []" "test_re alts q" by auto
    with Cons.prems row show ?thesis by auto
  next
    case False
    with Cons.prems row have "canned_chain rows q = Some a" by (auto split: option.splits if_splits)
    from Cons.IH [OF this] show ?thesis by auto
  qed
qed


subsection \<open>The paths through the chat handlers\<close>

lemma reply_respond: "reply (respond s b evs) = \<lparr>status = s, body = b\<rparr>"
  by (simp add: respond_def)

lemma calls_respond: "calls (respond s b evs) = evs"
  by (simp add: respond_def)

lemma valid_text_Some_iff: "valid_text t = Some s \<longleftrightarrow> t = Some (JStr s) \<and> trim s \<noteq> []"
  by (auto simp: valid_text_def trim_def split: option.splits json.splits)

lemma valid_text_None_iff:
  "valid_text t = None \<longleftrightarrow> (\<forall>s. t = Some (JStr s) \<longrightarrow> trim s = [])"
  by (auto simp: valid_text_def trim_def split: option.splits json.splits)

lemma handler_not_POST:
  "req_method req \<noteq> ''POST'' \<Longrightarrow>
     handler req KB e P up = respond 405 (Error ''Method not allowed'' None) []"
  by (simp add: handler_def)

lemma handler_no_text:
  "req_method req = ''POST'' \<Longrightarrow> valid_text (text_field req) = None \<Longrightarrow>
     handler req KB e P up = respond 400 (Error ''No question text provided'' None) []"
  by (simp add: handler_def)

lemma handler_canned:
  "req_method req = ''POST'' \<Longrightarrow> valid_text (text_field req) = Some question \<Longrightarrow>
   canned_chain (canned_rows KB) (toLowerCase question) = Some a \<Longrightarrow>
     handler req KB e P up = respond 200 (Answer a) []"
  by (simp add: handler_def)

lemma handler_no_sources:
  "req_method req = ''POST'' \<Longrightarrow> valid_text (text_field req) = Some question \<Longrightarrow>
   canned_chain (canned_rows KB) (toLowerCase question) = None \<Longrightarrow>
   source_ids (buildContext question KB) = [] \<Longrightarrow>
     handler req KB e P up =
       respond 200 (Answer \<lparr>answer = no_information, confidence = ''low'', sources = []\<rparr>) [ContextBuilt]"
  by (simp add: handler_def Let_def)

lemma handler_unconfigured:
  "req_method req = ''POST'' \<Longrightarrow> valid_text (text_field req) = Some question \<Longrightarrow>
   canned_chain (canned_rows KB) (toLowerCase question) = None \<Longrightarrow>
   source_ids (buildContext question KB) \<noteq> [] \<Longrightarrow>
   unset (HF_API_TOKEN e) \<or> unset (HF_MODEL e) \<Longrightarrow>
     handler req KB e P up =
       respond 500 (Error ''Server not configured: set HF_API_TOKEN and HF_MODEL in env vars.'' None)
         [ContextBuilt]"
  by (simp add: handler_def Let_def)

lemma handler_upstream:
  "req_method req = ''POST'' \<Longrightarrow> valid_text (text_field req) = Some question \<Longrightarrow>
   canned_chain (canned_rows KB) (toLowerCase question) = None \<Longrightarrow>
   source_ids (buildContext question KB) \<noteq> [] \<Longrightarrow>
   \<not> unset (HF_API_TOKEN e) \<Longrightarrow> \<not> unset (HF_MODEL e) \<Longrightarrow>
     handler req KB e P up =
       (let prompt = assemble_prompt SYSTEM_PROMPT (context_block (buildContext question KB)) question
        in case up of
             HF_threw err \<Rightarrow>
               respond 500 (Error ''internal server error'' (Some err)) [ContextBuilt, ModelCall prompt]
           | HF_not_ok b \<Rightarrow>
               respond 502 (Error ''Model inference failed'' (Some b)) [ContextBuilt, ModelCall prompt]
           | HF_generated g \<Rightarrow>
               respond 200 (Answer (parse_generated P g)) [ContextBuilt, ModelCall prompt])"
  by (simp add: handler_def Let_def)

lemma handler_v2_not_POST:
  "req_method req \<noteq> ''POST'' \<Longrightarrow>
     handler_v2 req KB e P up = respond 405 (Error ''Method not allowed'' None) []"
  by (simp add: handler_v2_def)

lemma handler_v2_no_text:
  "req_method req = ''POST'' \<Longrightarrow> valid_text (text_field req) = None \<Longrightarrow>
     handler_v2 req KB e P up = respond 400 (Error ''No question text provided'' None) []"
  by (simp add: handler_v2_def)

lemma handler_v2_canned:
  "req_method req = ''POST'' \<Longrightarrow> valid_text (text_field req) = Some question \<Longrightarrow>
   canned_loop canned_table (toLowerCase question) KB = Some a \<Longrightarrow>
     handler_v2 req KB e P up = respond 200 (Answer a) []"
  by (simp add: handler_v2_def)

lemma handler_v2_no_sources:
  "req_method req = ''POST'' \<Longrightarrow> valid_text (text_field req) = Some question \<Longrightarrow>
   canned_loop canned_table (toLowerCase question) KB = None \<Longrightarrow>
   source_ids (buildContext_v2 question KB 5) = [] \<Longrightarrow>
     handler_v2 req KB e P up =
       respond 200 (Answer \<lparr>answer = no_information, confidence = ''low'', sources = []\<rparr>) [ContextBuilt]"
  by (simp add: handler_v2_def Let_def)

lemma handler_v2_unconfigured:
  "req_method req = ''POST'' \<Longrightarrow> valid_text (text_field req) = Some question \<Longrightarrow>
   canned_loop canned_table (toLowerCase question) KB = None \<Longrightarrow>
   source_ids (buildContext_v2 question KB 5) \<noteq> [] \<Longrightarrow>
   unset (GEMINI_API_KEY e) \<Longrightarrow>
     handler_v2 req KB e P up =
       respond 500 (Error ''Server not configured: set GEMINI_API_KEY.'' None) [ContextBuilt]"
  by (simp add: handler_v2_def Let_def)

lemma handler_v2_upstream:
  "req_method req = ''POST'' \<Longrightarrow> valid_text (text_field req) = Some question \<Longrightarrow>
   canned_loop canned_table (toLowerCase question) KB = None \<Longrightarrow>
   source_ids (buildContext_v2 question KB 5) \<noteq> [] \<Longrightarrow>
   \<not> unset (GEMINI_API_KEY e) \<Longrightarrow>
     handler_v2 req KB e P up =
       (let prompt = assemble_prompt SYSTEM_PROMPT_v2 (context_block (buildContext_v2 question KB 5)) question
        in case up of
             Gemini_threw err \<Rightarrow>
               respond 500 (Error ''internal server error'' (Some err)) [ContextBuilt, ModelCall prompt]
           | Gemini_generated g \<Rightarrow>
               respond 200 (Answer (parse_generated P g)) [ContextBuilt, ModelCall prompt])"
  by (simp add: handler_v2_def Let_def)

lemma high_sources: "sources (high t i) \<noteq> []"
  by (simp add: high_def)

lemma handler_answer_cases:
  assumes "body (reply (handler req KB e P up)) = Answer a"
  shows "(\<exists>t i. a = high t i) \<or> a = \<lparr>answer = no_information, confidence = ''low'', sources = []\<rparr>
         \<or> (\<exists>g. a = parse_generated P g)"
  using assms
  by (auto simp: handler_def Let_def reply_respond
           dest!: canned_chain_Some split: if_splits option.splits hf_reply.splits)

lemma handler_v2_answer_cases:
  assumes "body (reply (handler_v2 req KB e P up)) = Answer a"
  shows "(\<exists>t i. a = high t i) \<or> a = \<lparr>answer = no_information, confidence = ''low'', sources = []\<rparr>
         \<or> (\<exists>g. a = parse_generated P g)"
  using assms
  by (auto simp: handler_v2_def Let_def reply_respond
           dest!: canned_loop_Some split: if_splits option.splits gemini_reply.splits)

lemma status_respond: "status (reply (respond s b evs)) = s"
  by (simp add: respond_def)

lemma who_are_you_canned:
  "canned_chain (canned_rows KB_fallback) (toLowerCase ''Who are you?'') =
     Some \<lparr>answer = ''I am a fourth-year engineering student from Bengaluru who blends design and code.'',
           confidence = ''high'', sources = [JStr ''KB_LIFE'']\<rparr>"
  by code_simp

lemma rag_not_canned:
  "canned_chain (canned_rows KB_fallback) (toLowerCase ''Is it RAG?'') = None"
  by code_simp

lemma rag_sources:
  "source_ids (buildContext ''Is it RAG?'' KB_fallback) = [''KB_LIFE'', ''KB_SUPERPOWER'', ''KB_GROW'']"
  by code_simp

lemma rag_trim: "trim ''Is it RAG?'' \<noteq> [] \<and> trim ''Who are you?'' \<noteq> [] \<and> trim ''   '' = []"
  by code_simp

lemma rag_not_canned_v2:
  "canned_loop canned_table (toLowerCase ''Is it RAG?'') KB_fallback = None"
  by code_simp

lemma rag_sources_v2:
  "source_ids (buildContext_v2 ''Is it RAG?'' KB_fallback 5) =
     [''KB_LIFE'', ''KB_SUPERPOWER'', ''KB_SKILLS'', ''KB_GROW'']"
  by code_simp

lemma empty_KB_not_canned:
  "canned_chain (canned_rows []) (toLowerCase ''Is it RAG?'') = None"
  by code_simp

lemma empty_KB_sources: "source_ids (buildContext ''Is it RAG?'' []) = []"
  by code_simp

lemma who_are_you_long:
  "canned_chain (canned_rows [\<lparr>id_s = ''KB_LIFE'', text_s = replicate 2001 (CHR ''a'')\<rparr>])
       (toLowerCase ''Who are you?'')
     = Some (high (replicate 2001 (CHR ''a'')) ''KB_LIFE'')"
proof -
  have "test_re [''what should we know'', ''life story'', ''who are you'', ''bio'', ''tell me about yourself'']
     (toLowerCase ''Who are you?'')"
    by code_simp
  moreover have "replicate 2001 (CHR ''a'') \<noteq> []" by simp
  ultimately show ?thesis by (simp add: canned_rows_def KB_text_def)
qed

lemma life_story_matches:
  "test_re [''what should we know'', ''life story'', ''who are you'', ''bio'', ''tell me about yourself'']
     (toLowerCase ''What should we know about your life story?'')"
  by code_simp

lemma life_story_trim: "trim ''What should we know about your life story?'' \<noteq> []"
  by code_simp

lemma KB_fallback_LIFE:
  "find (\<lambda>k. id_s k = ''KB_LIFE'') KB_fallback =
     Some \<lparr>id_s = ''KB_LIFE'',
           text_s = ''I am a fourth-year engineering student from Bengaluru who blends design and code.''\<rparr>"
  by (simp add: KB_fallback_def)

lemma long_life_canned:
  "canned_loop canned_table (toLowerCase ''Who are you?'')
      [\<lparr>id_s = ''KB_LIFE'', text_s = replicate 2001 (CHR ''a'')\<rparr>]
     = Some (high (replicate 2001 (CHR ''a'')) ''KB_LIFE'')"
proof -
  have "test_re [''what should we know'', ''life story'', ''who are you'', ''bio'', ''tell me about yourself'']
     (toLowerCase ''Who are you?'')"
    by code_simp
  then show ?thesis by (simp add: canned_table_def)
qed

lemma handler_tts_cleaned:
  assumes "req_method req = ''POST''" and "text_field req = Some (JStr s)" and "trim s \<noteq> []"
  shows "handler_tts req e up =
     (if unset (ELEVENLABS_API_KEY e)
      then respond 500 (Error ''ELEVENLABS_API_KEY not set'' None) []
      else (case up of
              Speech_threw err \<Rightarrow>
                respond 500 (Error ''internal server error'' (Some err)) [SpeechCall (sanitize s)]
            | Speech_not_ok b \<Rightarrow> respond 502 (Error ''TTS failed'' (Some b)) [SpeechCall (sanitize s)]
            | Speech_audio audio \<Rightarrow> respond 200 (Audio audio) [SpeechCall (sanitize s)]))"
proof -
  from assms(3) have "s \<noteq> []" by (auto simp: trim_def)
  with assms show ?thesis by (simp add: handler_tts_def Let_def)
qed

lemma canned_rows_available:
  "(tx, alts, i) \<in> set (canned_rows KB) \<Longrightarrow> find (\<lambda>k. id_s k = i) KB = Some hit \<Longrightarrow>
   text_s hit \<noteq> [] \<Longrightarrow> tx = Some (text_s hit)"
  by (auto simp: canned_rows_def KB_text_def or_else_def)

lemma canned_rows_earlier:
  assumes "canned_rows KB = pre @ row # post" and "(tx, alts, i) \<in> set pre"
  shows "tx = KB_text KB i"
proof -
  from assms(1) have "butlast (canned_rows KB) = pre @ butlast (row # post)"
    by (simp add: butlast_append)
  with assms(2) have "(tx, alts, i) \<in> set (butlast (canned_rows KB))" by simp
  then show ?thesis by (auto simp: canned_rows_def)
qed

lemma KB_text_available:
  "KB_text KB i = Some t \<Longrightarrow> t \<noteq> [] \<Longrightarrow>
     \<exists>k. find (\<lambda>k. id_s k = i) KB = Some k \<and> text_s k \<noteq> []"
  by (auto simp: KB_text_def)

lemma canned_chain_first_available:
  assumes rows: "canned_rows KB = pre @ (tx, alts, i) # post"
    and earlier: "\<forall>(tx', alts', i')\<in>set pre.
          \<not> (test_re alts' q \<and> (\<exists>k. find (\<lambda>k. id_s k = i') KB = Some k \<and> text_s k \<noteq> []))"
    and test: "test_re alts q"
    and hit: "find (\<lambda>k. id_s k = i) KB = Some hit" and ne: "text_s hit \<noteq> []"
  shows "canned_chain (canned_rows KB) q = Some (high (text_s hit) i)"
proof -
  from rows have "(tx, alts, i) \<in> set (canned_rows KB)" by simp
  from canned_rows_available [OF this hit ne] have tx: "tx = Some (text_s hit)" .
  have "\<not> (tx' \<noteq> None \<and> tx' \<noteq> Some [] \<and> test_re alts' q)"
    if mem: "(tx', alts', i') \<in> set pre" for tx' alts' i'
  proof
    assume c: "tx' \<noteq> None \<and> tx' \<noteq> Some [] \<and> test_re alts' q"
    then obtain t where some: "tx' = Some t" and t: "t \<noteq> []" by auto
    from canned_rows_earlier [OF rows mem] some have "KB_text KB i' = Some t" by simp
    from KB_text_available [OF this t]
    have "\<exists>k. find (\<lambda>k. id_s k = i') KB = Some k \<and> text_s k \<noteq> []" .
    with earlier mem c show False by auto
  qed
  then have "\<forall>(tx', alts', i')\<in>set pre. \<not> (tx' \<noteq> None \<and> tx' \<noteq> Some [] \<and> test_re alts' q)"
    by auto
  from canned_chain_first [OF this ne test]
  have "canned_chain (pre @ (Some (text_s hit), alts, i) # post) q = Some (high (text_s hit) i)" .
  with rows tx show ?thesis by simp
qed

lemma handler_tts_blank:
  assumes "req_method req = ''POST''" and "text_field req = Some (JStr s)" and "trim s = []"
  shows "handler_tts req e up = respond 400 (Error ''No text provided'' None) []"
  using assms by (simp add: handler_tts_def)

text \<open>
  Claim C4: in every 200 response of a chat handler that carries an envelope (canned answer,
  empty context, parsed model output or fallback), empty sources come with confidence low.
  The converse does not hold (\<open>low_confidence_with_sources\<close>).
\<close>

theorem empty_sources_low_confidence:
  assumes "reply (handler req KB e P up) = \<lparr>status = 200, body = Answer a\<rparr>
           \<or> reply (handler_v2 req KB e P up2) = \<lparr>status = 200, body = Answer a\<rparr>"
    and "sources a = []"
  shows "confidence a = ''low''"
proof -
  from assms(1) have "body (reply (handler req KB e P up)) = Answer a
      \<or> body (reply (handler_v2 req KB e P up2)) = Answer a"
    by auto
  then have "(\<exists>t i. a = high t i)
      \<or> a = \<lparr>answer = no_information, confidence = ''low'', sources = []\<rparr>
      \<or> (\<exists>g. a = parse_generated P g)"
    using handler_answer_cases handler_v2_answer_cases by blast
  with assms(2) show ?thesis
    using high_sources parse_generated_sources_low by auto
qed

theorem empty_sources_low_confidence_witness:
  "reply (handler \<lparr>req_method = ''POST'', text_field = Some (JStr ''Is it RAG?'')\<rparr> KB_fallback
      \<lparr>HF_API_TOKEN = Some ''token'', HF_MODEL = Some ''model'', GEMINI_API_KEY = None,
       ELEVENLABS_API_KEY = None\<rparr> (map_of []) (HF_generated ''Hello''))
     = \<lparr>status = 200, body = Answer (parse_generated (map_of []) ''Hello'')\<rparr>
   \<and> sources (parse_generated (map_of []) ''Hello'') = []
   \<and> confidence (parse_generated (map_of []) ''Hello'') = ''low''"
proof -
  let ?req = "\<lparr>req_method = ''POST'', text_field = Some (JStr ''Is it RAG?'')\<rparr>"
  let ?env = "\<lparr>HF_API_TOKEN = Some ''token'', HF_MODEL = Some ''model'', GEMINI_API_KEY = None,
       ELEVENLABS_API_KEY = None\<rparr>"
  let ?P = "map_of [] :: string \<Rightarrow> jobject option"
  have v: "valid_text (text_field ?req) = Some ''Is it RAG?''"
    using rag_trim by (simp add: valid_text_Some_iff)
  have "handler ?req KB_fallback ?env ?P (HF_generated ''Hello'') =
      respond 200 (Answer (parse_generated ?P ''Hello''))
        [ContextBuilt,
         ModelCall (assemble_prompt SYSTEM_PROMPT
           (context_block (buildContext ''Is it RAG?'' KB_fallback)) ''Is it RAG?'')]"
    using handler_upstream [of ?req "''Is it RAG?''" KB_fallback ?env ?P "HF_generated ''Hello''"]
      v rag_not_canned rag_sources
    by (simp add: unset_def Let_def)
  then have r: "reply (handler ?req KB_fallback ?env ?P (HF_generated ''Hello''))
      = \<lparr>status = 200, body = Answer (parse_generated ?P ''Hello'')\<rparr>"
    by (simp add: reply_respond)
  have s: "sources (parse_generated ?P ''Hello'') = []" by code_simp
  from empty_sources_low_confidence [of ?req KB_fallback ?env ?P "HF_generated ''Hello''"
      "parse_generated ?P ''Hello''" "Gemini_threw []", OF disjI1 [OF r] s] r s
  show ?thesis by simp
qed

lemma low_confidence_with_sources:
  \<open>parse_generated
     (map_of [(''{"answer":"Maybe","confidence":"low","sources":["KB_LIFE"]}'',
               [(''answer'', JStr ''Maybe''), (''confidence'', JStr ''low''),
                (''sources'', JArr [JStr ''KB_LIFE''])])])
     ''{"answer":"Maybe","confidence":"low","sources":["KB_LIFE"]}''
   = \<lparr>answer = ''Maybe'', confidence = ''low'', sources = [JStr ''KB_LIFE'']\<rparr>\<close>
  by code_simp

lemma handler_200_answer:
  "status (reply (handler req KB e P up)) = 200 \<Longrightarrow> \<exists>a. body (reply (handler req KB e P up)) = Answer a"
  by (auto simp: handler_def Let_def respond_def split: if_splits option.splits hf_reply.splits)

lemma handler_v2_200_answer:
  "status (reply (handler_v2 req KB e P up)) = 200 \<Longrightarrow>
     \<exists>a. body (reply (handler_v2 req KB e P up)) = Answer a"
  by (auto simp: handler_v2_def Let_def respond_def split: if_splits option.splits gemini_reply.splits)

text \<open>
  Claim C7 says that every query that matches a canned pattern gets the canned answer of the
  first matching pattern. Each canned answer is guarded by its snippet being there
  (\<open>if (misText && ...)\<close>, \<open>if (hit)\<close>). The inline knowledge base of \<open>api/chat.js\<close>
  has no \<open>KB_MISCONCEPTION\<close> snippet: a question that matches the misconception pattern
  builds a context and calls the model client.
\<close>

theorem canned_pattern_without_snippet:
  "test_re [''misconception'', ''what do people get wrong'', ''coworker'', ''misread you'']
     (toLowerCase ''Any misconception about you?'') \<and>
   handler \<lparr>req_method = ''POST'', text_field = Some (JStr ''Any misconception about you?'')\<rparr>
     KB_fallback
     \<lparr>HF_API_TOKEN = Some ''token'', HF_MODEL = Some ''model'', GEMINI_API_KEY = None,
      ELEVENLABS_API_KEY = None\<rparr>
     (map_of []) (HF_generated ''I am not sure.'')
   = respond 200 (Answer \<lparr>answer = ''I am not sure.'', confidence = ''low'', sources = []\<rparr>)
       [ContextBuilt,
        ModelCall (assemble_prompt SYSTEM_PROMPT
          (context_block (buildContext ''Any misconception about you?'' KB_fallback))
          ''Any misconception about you?'')]"
  by code_simp

text \<open>
  C7, as amended: for every valid question, the first pattern in table order that matches
  the lowercased question and whose snippet is available wins: the handler returns the text
  of the snippet that carries the pattern's id, verbatim, as the answer, with confidence high
  and that id as the only source, and neither builds a context block nor calls the model
  client. A snippet is available when the knowledge base has a snippet with the pattern's id
  and, for \<open>api/chat.js\<close>, its text is not empty; an earlier pattern that matches but has
  no available snippet does not stop a later one. The life-story question against the inline
  knowledge base is the first witness; in the other two an earlier matching pattern has no
  snippet and a later one answers.
\<close>

theorem first_available_canned_wins:
  assumes "req_method req = ''POST''" and "text_field req = Some (JStr question)"
    and "trim question \<noteq> []"
  shows "(canned_table = pre @ (alts, i) # post
            \<and> (\<forall>(alts', i')\<in>set pre.
                  \<not> (test_re alts' (toLowerCase question) \<and> find (\<lambda>k. id_s k = i') KB \<noteq> None))
            \<and> test_re alts (toLowerCase question)
            \<and> find (\<lambda>k. id_s k = i) KB = Some hit
          \<longrightarrow> handler_v2 req KB e JSON_parse up2 =
                respond 200 (Answer \<lparr>answer = text_s hit, confidence = ''high'', sources = [JStr i]\<rparr>) [])
       \<and> (canned_rows KB = preh @ (tx, altsh, ih) # posth
            \<and> (\<forall>(tx', alts', i')\<in>set preh.
                  \<not> (test_re alts' (toLowerCase question)
                      \<and> (\<exists>k. find (\<lambda>k. id_s k = i') KB = Some k \<and> text_s k \<noteq> [])))
            \<and> test_re altsh (toLowerCase question)
            \<and> find (\<lambda>k. id_s k = ih) KB = Some hith \<and> text_s hith \<noteq> []
          \<longrightarrow> handler req KB e JSON_parse up =
                respond 200 (Answer \<lparr>answer = text_s hith, confidence = ''high'', sources = [JStr ih]\<rparr>) [])"
proof -
  from assms have v: "valid_text (text_field req) = Some question"
    by (simp add: valid_text_Some_iff)
  show ?thesis
  proof (intro conjI impI)
    assume h: "canned_table = pre @ (alts, i) # post
            \<and> (\<forall>(alts', i')\<in>set pre.
                  \<not> (test_re alts' (toLowerCase question) \<and> find (\<lambda>k. id_s k = i') KB \<noteq> None))
            \<and> test_re alts (toLowerCase question)
            \<and> find (\<lambda>k. id_s k = i) KB = Some hit"
    then have "canned_loop (pre @ (alts, i) # post) (toLowerCase question) KB = Some (high (text_s hit) i)"
      by (intro canned_loop_first) auto
    with h have "canned_loop canned_table (toLowerCase question) KB = Some (high (text_s hit) i)"
      by simp
    from handler_v2_canned [OF assms(1) v this]
    show "handler_v2 req KB e JSON_parse up2 =
            respond 200 (Answer \<lparr>answer = text_s hit, confidence = ''high'', sources = [JStr i]\<rparr>) []"
      by (simp add: high_def)
  next
    assume h: "canned_rows KB = preh @ (tx, altsh, ih) # posth
            \<and> (\<forall>(tx', alts', i')\<in>set preh.
                  \<not> (test_re alts' (toLowerCase question)
                      \<and> (\<exists>k. find (\<lambda>k. id_s k = i') KB = Some k \<and> text_s k \<noteq> [])))
            \<and> test_re altsh (toLowerCase question)
            \<and> find (\<lambda>k. id_s k = ih) KB = Some hith \<and> text_s hith \<noteq> []"
    then have "canned_chain (canned_rows KB) (toLowerCase question) = Some (high (text_s hith) ih)"
      by (intro canned_chain_first_available [of KB preh tx altsh ih posth]) auto
    from handler_canned [OF assms(1) v this]
    show "handler req KB e JSON_parse up =
            respond 200 (Answer \<lparr>answer = text_s hith, confidence = ''high'', sources = [JStr ih]\<rparr>) []"
      by (simp add: high_def)
  qed
qed

theorem first_available_canned_wins_witness:
  "handler_v2 \<lparr>req_method = ''POST'', text_field = Some (JStr ''What should we know about your life story?'')\<rparr>
     KB_fallback
     \<lparr>HF_API_TOKEN = None, HF_MODEL = None, GEMINI_API_KEY = None, ELEVENLABS_API_KEY = None\<rparr>
     (map_of []) (Gemini_threw '''')
   = respond 200
       (Answer \<lparr>answer = ''I am a fourth-year engineering student from Bengaluru who blends design and code.'',
                confidence = ''high'', sources = [JStr ''KB_LIFE'']\<rparr>) [] \<and>
   handler \<lparr>req_method = ''POST'', text_field = Some (JStr ''What should we know about your life story?'')\<rparr>
     KB_fallback
     \<lparr>HF_API_TOKEN = None, HF_MODEL = None, GEMINI_API_KEY = None, ELEVENLABS_API_KEY = None\<rparr>
     (map_of []) (HF_threw '''')
   = respond 200
       (Answer \<lparr>answer = ''I am a fourth-year engineering student from Bengaluru who blends design and code.'',
                confidence = ''high'', sources = [JStr ''KB_LIFE'']\<rparr>) [] \<and>
   handler_v2 \<lparr>req_method = ''POST'', text_field = Some (JStr ''What architecture helps you grow?'')\<rparr>
     KB_fallback
     \<lparr>HF_API_TOKEN = None, HF_MODEL = None, GEMINI_API_KEY = None, ELEVENLABS_API_KEY = None\<rparr>
     (map_of []) (Gemini_threw '''')
   = respond 200
       (Answer \<lparr>answer = ''Wants to grow in backend systems & deployments, advanced ML/LLM tooling and RAG, and system design.'',
                confidence = ''high'', sources = [JStr ''KB_GROW'']\<rparr>) [] \<and>
   handler \<lparr>req_method = ''POST'', text_field = Some (JStr ''Who are you and what are your hobbies?'')\<rparr>
     [\<lparr>id_s = ''KB_PERSONAL'', text_s = ''Interests: UI/UX design and crocheting.''\<rparr>]
     \<lparr>HF_API_TOKEN = None, HF_MODEL = None, GEMINI_API_KEY = None, ELEVENLABS_API_KEY = None\<rparr>
     (map_of []) (HF_threw '''')
   = respond 200
       (Answer \<lparr>answer = ''Interests: UI/UX design and crocheting.'',
                confidence = ''high'', sources = [JStr ''KB_PERSONAL'']\<rparr>) []"
proof -
  let ?none = "\<lparr>HF_API_TOKEN = None, HF_MODEL = None, GEMINI_API_KEY = None, ELEVENLABS_API_KEY = None\<rparr>"
  let ?P = "map_of [] :: string \<Rightarrow> jobject option"
  let ?req = "\<lparr>req_method = ''POST'', text_field = Some (JStr ''What should we know about your life story?'')\<rparr>"
  let ?life = "\<lparr>id_s = ''KB_LIFE'',
       text_s = ''I am a fourth-year engineering student from Bengaluru who blends design and code.''\<rparr>"
  let ?life_alts = "[''what should we know'', ''life story'', ''who are you'', ''bio'', ''tell me about yourself'']"
  have 1: "req_method ?req = ''POST''" by simp
  have 2: "text_field ?req = Some (JStr ''What should we know about your life story?'')" by simp
  have tbl: "canned_table = [] @ (?life_alts, ''KB_LIFE'') # tl canned_table"
    by (simp add: canned_table_def)
  have rows: "canned_rows KB_fallback =
      [] @ (Some (text_s ?life), ?life_alts, ''KB_LIFE'') # tl (canned_rows KB_fallback)"
    by (simp add: canned_rows_def KB_text_def KB_fallback_LIFE)
  from first_available_canned_wins [OF 1 2 life_story_trim,
      where pre = "[]" and post = "tl canned_table" and i = "''KB_LIFE''" and hit = ?life
        and KB = KB_fallback and preh = "[]" and posth = "tl (canned_rows KB_fallback)"
        and tx = "Some (text_s ?life)" and ih = "''KB_LIFE''" and hith = ?life
        and alts = ?life_alts and altsh = ?life_alts and e = ?none and JSON_parse = ?P
        and up = "HF_threw ''''" and ?up2.0 = "Gemini_threw ''''"]
    tbl rows life_story_matches KB_fallback_LIFE
  have a: "handler_v2 ?req KB_fallback ?none ?P (Gemini_threw '''')
      = respond 200 (Answer \<lparr>answer = text_s ?life, confidence = ''high'', sources = [JStr ''KB_LIFE'']\<rparr>) []
    \<and> handler ?req KB_fallback ?none ?P (HF_threw '''')
      = respond 200 (Answer \<lparr>answer = text_s ?life, confidence = ''high'', sources = [JStr ''KB_LIFE'']\<rparr>) []"
    by simp

  let ?q2 = "''What architecture helps you grow?''"
  let ?req2 = "\<lparr>req_method = ''POST'', text_field = Some (JStr ?q2)\<rparr>"
  let ?grow = "\<lparr>id_s = ''KB_GROW'',
       text_s = ''Wants to grow in backend systems & deployments, advanced ML/LLM tooling and RAG, and system design.''\<rparr>"
  let ?grow_alts = "[''top 3'', ''areas to grow'', ''grow'', ''improve'', ''where do you want to grow'']"
  let ?pre2 = "[(?life_alts, ''KB_LIFE''),
                ([''superpower'', ''super power'', ''strength'', ''best skill''], ''KB_SUPERPOWER''),
                ([''how did you build'', ''tech stack'', ''how was this made'', ''architecture''],
                 ''KB_ARCHITECTURE'')]"
  have 21: "req_method ?req2 = ''POST''" and 22: "text_field ?req2 = Some (JStr ?q2)" by simp_all
  have 23: "trim ?q2 \<noteq> []" by code_simp
  have tbl2: "canned_table = ?pre2 @ (?grow_alts, ''KB_GROW'') # drop 4 canned_table"
    by (simp add: canned_table_def)
  have t2: "\<not> test_re ?life_alts (toLowerCase ?q2)
      \<and> \<not> test_re [''superpower'', ''super power'', ''strength'', ''best skill''] (toLowerCase ?q2)
      \<and> test_re [''how did you build'', ''tech stack'', ''how was this made'', ''architecture'']
           (toLowerCase ?q2)
      \<and> test_re ?grow_alts (toLowerCase ?q2)"
    by code_simp
  have f2: "find (\<lambda>k. id_s k = ''KB_ARCHITECTURE'') KB_fallback = None
      \<and> find (\<lambda>k. id_s k = ''KB_GROW'') KB_fallback = Some ?grow"
    by (simp add: KB_fallback_def)
  from first_available_canned_wins [OF 21 22 23,
      where pre = ?pre2 and post = "drop 4 canned_table" and i = "''KB_GROW''" and hit = ?grow
        and KB = KB_fallback and alts = ?grow_alts and e = ?none and JSON_parse = ?P
        and ?up2.0 = "Gemini_threw ''''"]
    tbl2 t2 f2
  have b: "handler_v2 ?req2 KB_fallback ?none ?P (Gemini_threw '''')
      = respond 200 (Answer \<lparr>answer = text_s ?grow, confidence = ''high'', sources = [JStr ''KB_GROW'']\<rparr>) []"
    by simp

  let ?q3 = "''Who are you and what are your hobbies?''"
  let ?req3 = "\<lparr>req_method = ''POST'', text_field = Some (JStr ?q3)\<rparr>"
  let ?personal = "\<lparr>id_s = ''KB_PERSONAL'', text_s = ''Interests: UI/UX design and crocheting.''\<rparr>"
  let ?KB3 = "[?personal]"
  let ?int_alts = "[''interests'', ''hobbies'', ''outside of work'', ''what do you like'']"
  have 31: "req_method ?req3 = ''POST''" and 32: "text_field ?req3 = Some (JStr ?q3)" by simp_all
  have 33: "trim ?q3 \<noteq> []" by code_simp
  have rows3: "canned_rows ?KB3 =
      butlast (canned_rows ?KB3) @ (Some (text_s ?personal), ?int_alts, ''KB_PERSONAL'') # []"
    by (simp add: canned_rows_def KB_text_def or_else_def)
  have e3: "\<forall>(tx', alts', i')\<in>set (butlast (canned_rows ?KB3)).
      \<not> (test_re alts' (toLowerCase ?q3) \<and> (\<exists>k. find (\<lambda>k. id_s k = i') ?KB3 = Some k \<and> text_s k \<noteq> []))"
    by (simp add: canned_rows_def KB_text_def)
  have t3: "test_re ?life_alts (toLowerCase ?q3) \<and> test_re ?int_alts (toLowerCase ?q3)"
    by code_simp
  have f3: "find (\<lambda>k. id_s k = ''KB_PERSONAL'') ?KB3 = Some ?personal" by simp
  from first_available_canned_wins [OF 31 32 33,
      where KB = ?KB3 and preh = "butlast (canned_rows ?KB3)" and posth = "[]"
        and tx = "Some (text_s ?personal)" and ih = "''KB_PERSONAL''" and hith = ?personal
        and altsh = ?int_alts and e = ?none and JSON_parse = ?P and up = "HF_threw ''''"]
    rows3 e3 t3 f3
  have c: "handler ?req3 ?KB3 ?none ?P (HF_threw '''')
      = respond 200 (Answer \<lparr>answer = text_s ?personal, confidence = ''high'',
                              sources = [JStr ''KB_PERSONAL'']\<rparr>) []"
    by simp
  from a b c show ?thesis by simp
qed

text \<open>
  Claim C8 says that the handler answers 500 whenever the API key is absent. The key is read
  only when the model is about to be called: a canned question is answered with 200 without
  any key.
\<close>

theorem no_key_canned_answer:
  "status (reply (handler \<lparr>req_method = ''POST'', text_field = Some (JStr ''Who are you?'')\<rparr>
     KB_fallback
     \<lparr>HF_API_TOKEN = None, HF_MODEL = None, GEMINI_API_KEY = None, ELEVENLABS_API_KEY = None\<rparr>
     (map_of []) (HF_threw ''''))) = 200"
  by code_simp

text \<open>
  C8, as amended: both chat handlers answer 405 when the method is not POST; 400 for a POST
  whose text is missing, not a string, or empty once trimmed; otherwise 200 with the canned
  envelope when a canned answer applies and 200 with the no-information envelope when the
  selector returns no sources, with or without an API key; otherwise 500 when the key
  configuration is absent or the model call throws, 502 when the inference endpoint of
  \<open>api/chat.js\<close> answers with a failure status, and 200 with an envelope of answer,
  confidence and sources when the model client returns a text.
\<close>

theorem chat_handler_status:
  "(req_method req \<noteq> ''POST'' \<longrightarrow>
      status (reply (handler req KB e P up)) = 405 \<and> status (reply (handler_v2 req KB e P up2)) = 405)
   \<and> (req_method req = ''POST'' \<and> (\<forall>s. text_field req = Some (JStr s) \<longrightarrow> trim s = []) \<longrightarrow>
      status (reply (handler req KB e P up)) = 400 \<and> status (reply (handler_v2 req KB e P up2)) = 400)
   \<and> (req_method req = ''POST'' \<and> text_field req = Some (JStr question) \<and> trim question \<noteq> [] \<longrightarrow>
        (\<forall>a. canned_chain (canned_rows KB) (toLowerCase question) = Some a \<longrightarrow>
             reply (handler req KB e P up) = \<lparr>status = 200, body = Answer a\<rparr>)
      \<and> (canned_chain (canned_rows KB) (toLowerCase question) = None \<longrightarrow>
           (source_ids (buildContext question KB) = [] \<longrightarrow>
              reply (handler req KB e P up) =
                \<lparr>status = 200,
                 body = Answer \<lparr>answer = no_information, confidence = ''low'', sources = []\<rparr>\<rparr>)
         \<and> (source_ids (buildContext question KB) \<noteq> [] \<longrightarrow>
              (unset (HF_API_TOKEN e) \<or> unset (HF_MODEL e) \<longrightarrow>
                 status (reply (handler req KB e P up)) = 500)
            \<and> (\<not> unset (HF_API_TOKEN e) \<and> \<not> unset (HF_MODEL e) \<longrightarrow>
                 (\<forall>err. up = HF_threw err \<longrightarrow> status (reply (handler req KB e P up)) = 500)
               \<and> (\<forall>b. up = HF_not_ok b \<longrightarrow> status (reply (handler req KB e P up)) = 502)
               \<and> (\<forall>g. up = HF_generated g \<longrightarrow>
                     reply (handler req KB e P up) =
                       \<lparr>status = 200, body = Answer (parse_generated P g)\<rparr>))))
      \<and> (\<forall>a. canned_loop canned_table (toLowerCase question) KB = Some a \<longrightarrow>
             reply (handler_v2 req KB e P up2) = \<lparr>status = 200, body = Answer a\<rparr>)
      \<and> (canned_loop canned_table (toLowerCase question) KB = None \<longrightarrow>
           (source_ids (buildContext_v2 question KB 5) = [] \<longrightarrow>
              reply (handler_v2 req KB e P up2) =
                \<lparr>status = 200,
                 body = Answer \<lparr>answer = no_information, confidence = ''low'', sources = []\<rparr>\<rparr>)
         \<and> (source_ids (buildContext_v2 question KB 5) \<noteq> [] \<longrightarrow>
              (unset (GEMINI_API_KEY e) \<longrightarrow> status (reply (handler_v2 req KB e P up2)) = 500)
            \<and> (\<not> unset (GEMINI_API_KEY e) \<longrightarrow>
                 (\<forall>err. up2 = Gemini_threw err \<longrightarrow> status (reply (handler_v2 req KB e P up2)) = 500)
               \<and> (\<forall>g. up2 = Gemini_generated g \<longrightarrow>
                     reply (handler_v2 req KB e P up2) =
                       \<lparr>status = 200, body = Answer (parse_generated P g)\<rparr>)))))"
proof (intro conjI impI allI)
  assume "req_method req \<noteq> ''POST''"
  then show "status (reply (handler req KB e P up)) = 405"
    and "status (reply (handler_v2 req KB e P up2)) = 405"
    by (simp_all add: handler_not_POST handler_v2_not_POST status_respond)
next
  assume "req_method req = ''POST'' \<and> (\<forall>s. text_field req = Some (JStr s) \<longrightarrow> trim s = [])"
  then have "req_method req = ''POST''" and "valid_text (text_field req) = None"
    by (simp_all add: valid_text_None_iff)
  then show "status (reply (handler req KB e P up)) = 400"
    and "status (reply (handler_v2 req KB e P up2)) = 400"
    by (simp_all add: handler_no_text handler_v2_no_text status_respond)
next
  assume "req_method req = ''POST'' \<and> text_field req = Some (JStr question) \<and> trim question \<noteq> []"
  then have m: "req_method req = ''POST''" and v: "valid_text (text_field req) = Some question"
    by (simp_all add: valid_text_Some_iff)
  note h = handler_canned [OF m v] handler_no_sources [OF m v] handler_unconfigured [OF m v]
    handler_upstream [OF m v]
  note h2 = handler_v2_canned [OF m v] handler_v2_no_sources [OF m v]
    handler_v2_unconfigured [OF m v] handler_v2_upstream [OF m v]
  show "reply (handler req KB e P up) = \<lparr>status = 200, body = Answer a\<rparr>"
    if "canned_chain (canned_rows KB) (toLowerCase question) = Some a" for a
    using that by (simp add: h(1) reply_respond)
  show "reply (handler_v2 req KB e P up2) = \<lparr>status = 200, body = Answer a\<rparr>"
    if "canned_loop canned_table (toLowerCase question) KB = Some a" for a
    using that by (simp add: h2(1) reply_respond)
  {
    assume c: "canned_chain (canned_rows KB) (toLowerCase question) = None"
    show "reply (handler req KB e P up) =
        \<lparr>status = 200, body = Answer \<lparr>answer = no_information, confidence = ''low'', sources = []\<rparr>\<rparr>"
      if "source_ids (buildContext question KB) = []"
      using that c by (simp add: h(2) reply_respond)
    assume s: "source_ids (buildContext question KB) \<noteq> []"
    show "status (reply (handler req KB e P up)) = 500"
      if "unset (HF_API_TOKEN e) \<or> unset (HF_MODEL e)"
      using h(3) [OF c s that] by (simp add: status_respond)
    assume k: "\<not> unset (HF_API_TOKEN e) \<and> \<not> unset (HF_MODEL e)"
    then have u: "handler req KB e P up =
       (let prompt = assemble_prompt SYSTEM_PROMPT (context_block (buildContext question KB)) question
        in case up of
             HF_threw err \<Rightarrow>
               respond 500 (Error ''internal server error'' (Some err)) [ContextBuilt, ModelCall prompt]
           | HF_not_ok b \<Rightarrow>
               respond 502 (Error ''Model inference failed'' (Some b)) [ContextBuilt, ModelCall prompt]
           | HF_generated g \<Rightarrow>
               respond 200 (Answer (parse_generated P g)) [ContextBuilt, ModelCall prompt])"
      using h(4) [OF c s] by simp
    show "status (reply (handler req KB e P up)) = 500" if "up = HF_threw err" for err
      using that u by (simp add: Let_def status_respond)
    show "status (reply (handler req KB e P up)) = 502" if "up = HF_not_ok b" for b
      using that u by (simp add: Let_def status_respond)
    show "reply (handler req KB e P up) = \<lparr>status = 200, body = Answer (parse_generated P g)\<rparr>"
      if "up = HF_generated g" for g
      using that u by (simp add: Let_def reply_respond)
  }
  {
    assume c: "canned_loop canned_table (toLowerCase question) KB = None"
    show "reply (handler_v2 req KB e P up2) =
        \<lparr>status = 200, body = Answer \<lparr>answer = no_information, confidence = ''low'', sources = []\<rparr>\<rparr>"
      if "source_ids (buildContext_v2 question KB 5) = []"
      using that c by (simp add: h2(2) reply_respond)
    assume s: "source_ids (buildContext_v2 question KB 5) \<noteq> []"
    show "status (reply (handler_v2 req KB e P up2)) = 500" if "unset (GEMINI_API_KEY e)"
      using h2(3) [OF c s that] by (simp add: status_respond)
    assume k: "\<not> unset (GEMINI_API_KEY e)"
    note u = h2(4) [OF c s k]
    show "status (reply (handler_v2 req KB e P up2)) = 500" if "up2 = Gemini_threw err" for err
      using that u [of P up2] by (simp add: Let_def status_respond)
    show "reply (handler_v2 req KB e P up2) = \<lparr>status = 200, body = Answer (parse_generated P g)\<rparr>"
      if "up2 = Gemini_generated g" for g
      using that u [of P up2] by (simp add: Let_def reply_respond)
  }
qed

theorem chat_handler_status_witness:
  "status (reply (handler \<lparr>req_method = ''GET'', text_field = None\<rparr> KB_fallback
      \<lparr>HF_API_TOKEN = Some ''token'', HF_MODEL = Some ''model'', GEMINI_API_KEY = None,
       ELEVENLABS_API_KEY = None\<rparr> (map_of []) (HF_generated ''Hello''))) = 405 \<and>
   status (reply (handler \<lparr>req_method = ''POST'', text_field = Some (JStr ''   '')\<rparr> KB_fallback
      \<lparr>HF_API_TOKEN = Some ''token'', HF_MODEL = Some ''model'', GEMINI_API_KEY = None,
       ELEVENLABS_API_KEY = None\<rparr> (map_of []) (HF_generated ''Hello''))) = 400 \<and>
   status (reply (handler \<lparr>req_method = ''POST'', text_field = Some (JStr ''Who are you?'')\<rparr> KB_fallback
      \<lparr>HF_API_TOKEN = None, HF_MODEL = None, GEMINI_API_KEY = None,
       ELEVENLABS_API_KEY = None\<rparr> (map_of []) (HF_generated ''Hello''))) = 200 \<and>
   status (reply (handler \<lparr>req_method = ''POST'', text_field = Some (JStr ''Is it RAG?'')\<rparr> []
      \<lparr>HF_API_TOKEN = None, HF_MODEL = None, GEMINI_API_KEY = None,
       ELEVENLABS_API_KEY = None\<rparr> (map_of []) (HF_generated ''Hello''))) = 200 \<and>
   status (reply (handler \<lparr>req_method = ''POST'', text_field = Some (JStr ''Is it RAG?'')\<rparr> KB_fallback
      \<lparr>HF_API_TOKEN = None, HF_MODEL = None, GEMINI_API_KEY = None,
       ELEVENLABS_API_KEY = None\<rparr> (map_of []) (HF_generated ''Hello''))) = 500 \<and>
   status (reply (handler \<lparr>req_method = ''POST'', text_field = Some (JStr ''Is it RAG?'')\<rparr> KB_fallback
      \<lparr>HF_API_TOKEN = Some ''token'', HF_MODEL = Some ''model'', GEMINI_API_KEY = None,
       ELEVENLABS_API_KEY = None\<rparr> (map_of []) (HF_threw ''FetchError''))) = 500 \<and>
   status (reply (handler \<lparr>req_method = ''POST'', text_field = Some (JStr ''Is it RAG?'')\<rparr> KB_fallback
      \<lparr>HF_API_TOKEN = Some ''token'', HF_MODEL = Some ''model'', GEMINI_API_KEY = None,
       ELEVENLABS_API_KEY = None\<rparr> (map_of []) (HF_not_ok ''overloaded''))) = 502 \<and>
   status (reply (handler \<lparr>req_method = ''POST'', text_field = Some (JStr ''Is it RAG?'')\<rparr> KB_fallback
      \<lparr>HF_API_TOKEN = Some ''token'', HF_MODEL = Some ''model'', GEMINI_API_KEY = None,
       ELEVENLABS_API_KEY = None\<rparr> (map_of []) (HF_generated ''Hello''))) = 200 \<and>
   status (reply (handler_v2 \<lparr>req_method = ''POST'', text_field = Some (JStr ''Is it RAG?'')\<rparr> KB_fallback
      \<lparr>HF_API_TOKEN = None, HF_MODEL = None, GEMINI_API_KEY = None,
       ELEVENLABS_API_KEY = None\<rparr> (map_of []) (Gemini_generated ''Hello''))) = 500 \<and>
   status (reply (handler_v2 \<lparr>req_method = ''POST'', text_field = Some (JStr ''Is it RAG?'')\<rparr> KB_fallback
      \<lparr>HF_API_TOKEN = None, HF_MODEL = None, GEMINI_API_KEY = Some ''key'',
       ELEVENLABS_API_KEY = None\<rparr> (map_of []) (Gemini_generated ''Hello''))) = 200"
proof -
  let ?set = "\<lparr>HF_API_TOKEN = Some ''token'', HF_MODEL = Some ''model'', GEMINI_API_KEY = None,
       ELEVENLABS_API_KEY = None\<rparr>"
  let ?none = "\<lparr>HF_API_TOKEN = None, HF_MODEL = None, GEMINI_API_KEY = None,
       ELEVENLABS_API_KEY = None\<rparr>"
  let ?gem = "\<lparr>HF_API_TOKEN = None, HF_MODEL = None, GEMINI_API_KEY = Some ''key'',
       ELEVENLABS_API_KEY = None\<rparr>"
  let ?P = "map_of [] :: string \<Rightarrow> jobject option"
  let ?rag = "\<lparr>req_method = ''POST'', text_field = Some (JStr ''Is it RAG?'')\<rparr>"
  have a: "status (reply (handler \<lparr>req_method = ''GET'', text_field = None\<rparr> KB_fallback ?set ?P
             (HF_generated ''Hello''))) = 405"
    using chat_handler_status [of "\<lparr>req_method = ''GET'', text_field = None\<rparr>" KB_fallback ?set ?P
        "HF_generated ''Hello''"]
    by simp
  have b: "status (reply (handler \<lparr>req_method = ''POST'', text_field = Some (JStr ''   '')\<rparr> KB_fallback
             ?set ?P (HF_generated ''Hello''))) = 400"
    using chat_handler_status [of "\<lparr>req_method = ''POST'', text_field = Some (JStr ''   '')\<rparr>"
        KB_fallback ?set ?P "HF_generated ''Hello''"] rag_trim
    by simp
  have c: "status (reply (handler \<lparr>req_method = ''POST'', text_field = Some (JStr ''Who are you?'')\<rparr>
             KB_fallback ?none ?P (HF_generated ''Hello''))) = 200"
    using chat_handler_status [of "\<lparr>req_method = ''POST'', text_field = Some (JStr ''Who are you?'')\<rparr>"
        KB_fallback ?none ?P "HF_generated ''Hello''" _ "''Who are you?''"] rag_trim who_are_you_canned
    by simp
  have c': "status (reply (handler ?rag [] ?none ?P (HF_generated ''Hello''))) = 200"
    using chat_handler_status [of ?rag "[]" ?none ?P "HF_generated ''Hello''" _ "''Is it RAG?''"]
      rag_trim empty_KB_not_canned empty_KB_sources
    by simp
  have d: "status (reply (handler ?rag KB_fallback ?none ?P (HF_generated ''Hello''))) = 500"
    using chat_handler_status [of ?rag KB_fallback ?none ?P "HF_generated ''Hello''" _ "''Is it RAG?''"]
      rag_trim rag_not_canned rag_sources
    by (simp add: unset_def)
  have d': "status (reply (handler ?rag KB_fallback ?set ?P (HF_threw ''FetchError''))) = 500"
    using chat_handler_status [of ?rag KB_fallback ?set ?P "HF_threw ''FetchError''" _ "''Is it RAG?''"]
      rag_trim rag_not_canned rag_sources
    by (simp add: unset_def)
  have e: "status (reply (handler ?rag KB_fallback ?set ?P (HF_not_ok ''overloaded''))) = 502"
    using chat_handler_status [of ?rag KB_fallback ?set ?P "HF_not_ok ''overloaded''" _ "''Is it RAG?''"]
      rag_trim rag_not_canned rag_sources
    by (simp add: unset_def)
  have f: "status (reply (handler ?rag KB_fallback ?set ?P (HF_generated ''Hello''))) = 200"
    using chat_handler_status [of ?rag KB_fallback ?set ?P "HF_generated ''Hello''" _ "''Is it RAG?''"]
      rag_trim rag_not_canned rag_sources
    by (simp add: unset_def)
  have g: "status (reply (handler_v2 ?rag KB_fallback ?none ?P (Gemini_generated ''Hello''))) = 500"
    using chat_handler_status [of ?rag KB_fallback ?none ?P _ "Gemini_generated ''Hello''" "''Is it RAG?''"]
      rag_trim rag_not_canned_v2 rag_sources_v2
    by (simp add: unset_def)
  have h: "status (reply (handler_v2 ?rag KB_fallback ?gem ?P (Gemini_generated ''Hello''))) = 200"
    using chat_handler_status [of ?rag KB_fallback ?gem ?P _ "Gemini_generated ''Hello''" "''Is it RAG?''"]
      rag_trim rag_not_canned_v2 rag_sources_v2
    by (simp add: unset_def)
  from a b c c' d d' e f g h show ?thesis by simp
qed

text \<open>
  Claim C9: a canned answer is not truncated. Whenever the canned matcher of either handler
  yields an answer, the response is 200 with exactly that envelope, and its answer is the
  whole text of a snippet of the knowledge base, whatever its length; the witness has a
  snippet of 2001 characters.
\<close>

theorem canned_answer_not_truncated:
  assumes "req_method req = ''POST''" and "text_field req = Some (JStr question)"
    and "trim question \<noteq> []"
  shows "(\<forall>a. canned_loop canned_table (toLowerCase question) KB = Some a \<longrightarrow>
            reply (handler_v2 req KB e P up2) = \<lparr>status = 200, body = Answer a\<rparr>
            \<and> (\<exists>hit\<in>set KB. answer a = text_s hit \<and> length (answer a) = length (text_s hit)
                  \<and> confidence a = ''high'' \<and> sources a = [JStr (id_s hit)]))
       \<and> (\<forall>a. canned_chain (canned_rows KB) (toLowerCase question) = Some a \<longrightarrow>
            reply (handler req KB e P up) = \<lparr>status = 200, body = Answer a\<rparr>
            \<and> (\<exists>hit\<in>set KB. answer a = text_s hit \<and> length (answer a) = length (text_s hit)
                  \<and> confidence a = ''high''))"
proof (intro conjI allI impI)
  from assms have v: "valid_text (text_field req) = Some question"
    by (simp add: valid_text_Some_iff)
  fix a
  {
    assume c: "canned_loop canned_table (toLowerCase question) KB = Some a"
    from handler_v2_canned [OF assms(1) v c]
    show "reply (handler_v2 req KB e P up2) = \<lparr>status = 200, body = Answer a\<rparr>"
      by (simp add: reply_respond)
    from canned_loop_Some [OF c]
    show "\<exists>hit\<in>set KB. answer a = text_s hit \<and> length (answer a) = length (text_s hit)
            \<and> confidence a = ''high'' \<and> sources a = [JStr (id_s hit)]"
      by (auto simp: high_def)
  }
  {
    assume c: "canned_chain (canned_rows KB) (toLowerCase question) = Some a"
    from handler_canned [OF assms(1) v c]
    show "reply (handler req KB e P up) = \<lparr>status = 200, body = Answer a\<rparr>"
      by (simp add: reply_respond)
    from canned_chain_Some [OF c] obtain t alts i
      where "(Some t, alts, i) \<in> set (canned_rows KB)" and "a = high t i" by blast
    with canned_rows_text [of t alts i KB]
    show "\<exists>hit\<in>set KB. answer a = text_s hit \<and> length (answer a) = length (text_s hit)
            \<and> confidence a = ''high''"
      by (auto simp: high_def)
  }
qed

theorem canned_answer_not_truncated_witness:
  "reply (handler_v2 \<lparr>req_method = ''POST'', text_field = Some (JStr ''Who are you?'')\<rparr>
      [\<lparr>id_s = ''KB_LIFE'', text_s = replicate 2001 (CHR ''a'')\<rparr>]
      \<lparr>HF_API_TOKEN = None, HF_MODEL = None, GEMINI_API_KEY = None, ELEVENLABS_API_KEY = None\<rparr>
      (map_of []) (Gemini_threw ''''))
     = \<lparr>status = 200,
        body = Answer \<lparr>answer = replicate 2001 (CHR ''a''), confidence = ''high'',
                       sources = [JStr ''KB_LIFE'']\<rparr>\<rparr>
   \<and> reply (handler \<lparr>req_method = ''POST'', text_field = Some (JStr ''Who are you?'')\<rparr>
      [\<lparr>id_s = ''KB_LIFE'', text_s = replicate 2001 (CHR ''a'')\<rparr>]
      \<lparr>HF_API_TOKEN = None, HF_MODEL = None, GEMINI_API_KEY = None, ELEVENLABS_API_KEY = None\<rparr>
      (map_of []) (HF_threw ''''))
     = \<lparr>status = 200,
        body = Answer \<lparr>answer = replicate 2001 (CHR ''a''), confidence = ''high'',
                       sources = [JStr ''KB_LIFE'']\<rparr>\<rparr>
   \<and> length (replicate 2001 (CHR ''a'')) = 2001"
proof -
  let ?req = "\<lparr>req_method = ''POST'', text_field = Some (JStr ''Who are you?'')\<rparr>"
  let ?KB = "[\<lparr>id_s = ''KB_LIFE'', text_s = replicate 2001 (CHR ''a'')\<rparr>]"
  have 1: "req_method ?req = ''POST''" and 2: "text_field ?req = Some (JStr ''Who are you?'')"
    by simp_all
  have 3: "trim ''Who are you?'' \<noteq> []" using rag_trim by simp
  from canned_answer_not_truncated [OF 1 2 3, of ?KB _ "map_of []" "Gemini_threw ''''" "HF_threw ''''"]
    long_life_canned who_are_you_long
  show ?thesis by (simp add: high_def)
qed

text \<open>
  Claim C10 says that a text which is not empty but made only of removable patterns and
  whitespace never gets 400 and is sent, emptied, to the speech endpoint. Two requests say
  otherwise. A single space is such a text, and the check on the raw text
  (\<open>!text || !text.trim()\<close>) answers 400. And \<open>{}\<close> passes that check, but without the
  speech key the handler answers 500 before it calls the endpoint, so nothing is sent.
\<close>

theorem tts_blank_or_no_key:
  "handler_tts \<lparr>req_method = ''POST'', text_field = Some (JStr '' '')\<rparr>
      \<lparr>HF_API_TOKEN = None, HF_MODEL = None, GEMINI_API_KEY = None, ELEVENLABS_API_KEY = Some ''key''\<rparr>
      (Speech_audio ''ID3'')
     = respond 400 (Error ''No text provided'' None) [] \<and>
   handler_tts \<lparr>req_method = ''POST'', text_field = Some (JStr ''{}'')\<rparr>
      \<lparr>HF_API_TOKEN = None, HF_MODEL = None, GEMINI_API_KEY = None, ELEVENLABS_API_KEY = None\<rparr>
      (Speech_audio ''ID3'')
     = respond 500 (Error ''ELEVENLABS_API_KEY not set'' None) []"
  by code_simp

text \<open>
  C10, as amended: the speech handler checks the raw text before it cleans it. For every POST
  whose text is a string, the status is 400 exactly when the text is blank (empty once
  trimmed), and then nothing is sent. Every other text, one that the cleaning empties such as
  \<open>{}\<close> included, never gets 400: without the speech key the handler answers 500 and sends
  nothing; with the key it calls the speech endpoint once, with the cleaned text (the empty
  text for \<open>{}\<close>), and answers 200 with the audio, 502 on a failure status and 500 when the
  call throws.
\<close>

theorem tts_validates_before_cleaning:
  assumes "req_method req = ''POST''" and "text_field req = Some (JStr s)"
  shows "(status (reply (handler_tts req e up)) = 400 \<longleftrightarrow> trim s = [])
       \<and> (trim s = [] \<longrightarrow> calls (handler_tts req e up) = [])
       \<and> (trim s \<noteq> [] \<longrightarrow>
            (unset (ELEVENLABS_API_KEY e) \<longrightarrow>
               handler_tts req e up = respond 500 (Error ''ELEVENLABS_API_KEY not set'' None) [])
          \<and> (\<not> unset (ELEVENLABS_API_KEY e) \<longrightarrow>
               calls (handler_tts req e up) = [SpeechCall (sanitize s)]
             \<and> (\<forall>audio. up = Speech_audio audio \<longrightarrow>
                   reply (handler_tts req e up) = \<lparr>status = 200, body = Audio audio\<rparr>)
             \<and> (\<forall>b. up = Speech_not_ok b \<longrightarrow> status (reply (handler_tts req e up)) = 502)
             \<and> (\<forall>err. up = Speech_threw err \<longrightarrow> status (reply (handler_tts req e up)) = 500)))"
proof (cases "trim s = []")
  case True
  from handler_tts_blank [OF assms True] True show ?thesis
    by (simp add: status_respond calls_respond)
next
  case False
  from handler_tts_cleaned [OF assms False] False show ?thesis
    by (cases up) (simp_all add: status_respond calls_respond reply_respond)
qed

theorem tts_validates_before_cleaning_witness:
  "reply (handler_tts \<lparr>req_method = ''POST'', text_field = Some (JStr ''{}'')\<rparr>
      \<lparr>HF_API_TOKEN = None, HF_MODEL = None, GEMINI_API_KEY = None, ELEVENLABS_API_KEY = Some ''key''\<rparr>
      (Speech_audio ''ID3'')) = \<lparr>status = 200, body = Audio ''ID3''\<rparr> \<and>
   calls (handler_tts \<lparr>req_method = ''POST'', text_field = Some (JStr ''{}'')\<rparr>
      \<lparr>HF_API_TOKEN = None, HF_MODEL = None, GEMINI_API_KEY = None, ELEVENLABS_API_KEY = Some ''key''\<rparr>
      (Speech_audio ''ID3'')) = [SpeechCall []] \<and>
   status (reply (handler_tts \<lparr>req_method = ''POST'', text_field = Some (JStr ''Hi {there}'')\<rparr>
      \<lparr>HF_API_TOKEN = None, HF_MODEL = None, GEMINI_API_KEY = None, ELEVENLABS_API_KEY = Some ''key''\<rparr>
      (Speech_not_ok ''quota''))) = 502 \<and>
   calls (handler_tts \<lparr>req_method = ''POST'', text_field = Some (JStr ''Hi {there}'')\<rparr>
      \<lparr>HF_API_TOKEN = None, HF_MODEL = None, GEMINI_API_KEY = None, ELEVENLABS_API_KEY = Some ''key''\<rparr>
      (Speech_not_ok ''quota'')) = [SpeechCall ''Hi there''] \<and>
   status (reply (handler_tts \<lparr>req_method = ''POST'', text_field = Some (JStr ''  '')\<rparr>
      \<lparr>HF_API_TOKEN = None, HF_MODEL = None, GEMINI_API_KEY = None, ELEVENLABS_API_KEY = Some ''key''\<rparr>
      (Speech_audio ''ID3''))) = 400 \<and>
   calls (handler_tts \<lparr>req_method = ''POST'', text_field = Some (JStr ''  '')\<rparr>
      \<lparr>HF_API_TOKEN = None, HF_MODEL = None, GEMINI_API_KEY = None, ELEVENLABS_API_KEY = Some ''key''\<rparr>
      (Speech_audio ''ID3'')) = [] \<and>
   handler_tts \<lparr>req_method = ''POST'', text_field = Some (JStr ''{}'')\<rparr>
      \<lparr>HF_API_TOKEN = None, HF_MODEL = None, GEMINI_API_KEY = None, ELEVENLABS_API_KEY = None\<rparr>
      (Speech_audio ''ID3'') = respond 500 (Error ''ELEVENLABS_API_KEY not set'' None) []"
proof -
  let ?key = "\<lparr>HF_API_TOKEN = None, HF_MODEL = None, GEMINI_API_KEY = None,
                ELEVENLABS_API_KEY = Some ''key''\<rparr>"
  let ?none = "\<lparr>HF_API_TOKEN = None, HF_MODEL = None, GEMINI_API_KEY = None,
                 ELEVENLABS_API_KEY = None\<rparr>"
  let ?braces = "\<lparr>req_method = ''POST'', text_field = Some (JStr ''{}'')\<rparr>"
  let ?hi = "\<lparr>req_method = ''POST'', text_field = Some (JStr ''Hi {there}'')\<rparr>"
  let ?blank = "\<lparr>req_method = ''POST'', text_field = Some (JStr ''  '')\<rparr>"
  have t: "trim ''{}'' \<noteq> [] \<and> trim ''Hi {there}'' \<noteq> [] \<and> trim ''  '' = []" by code_simp
  have s: "sanitize ''{}'' = [] \<and> sanitize ''Hi {there}'' = ''Hi there''" by code_simp
  have a: "reply (handler_tts ?braces ?key (Speech_audio ''ID3'')) = \<lparr>status = 200, body = Audio ''ID3''\<rparr>
      \<and> calls (handler_tts ?braces ?key (Speech_audio ''ID3'')) = [SpeechCall []]"
    using tts_validates_before_cleaning [of ?braces "''{}''" ?key "Speech_audio ''ID3''"] t s
    by (simp add: unset_def)
  have b: "status (reply (handler_tts ?hi ?key (Speech_not_ok ''quota''))) = 502
      \<and> calls (handler_tts ?hi ?key (Speech_not_ok ''quota'')) = [SpeechCall ''Hi there'']"
    using tts_validates_before_cleaning [of ?hi "''Hi {there}''" ?key "Speech_not_ok ''quota''"] t s
    by (simp add: unset_def)
  have c: "status (reply (handler_tts ?blank ?key (Speech_audio ''ID3''))) = 400
      \<and> calls (handler_tts ?blank ?key (Speech_audio ''ID3'')) = []"
    using tts_validates_before_cleaning [of ?blank "''  ''" ?key "Speech_audio ''ID3''"] t by simp
  have d: "handler_tts ?braces ?none (Speech_audio ''ID3'')
      = respond 500 (Error ''ELEVENLABS_API_KEY not set'' None) []"
    using tts_validates_before_cleaning [of ?braces "''{}''" ?none "Speech_audio ''ID3''"] t
    by (simp add: unset_def)
  from a b c d show ?thesis by simp
qed

end
